theory Spec2Isabelle
  imports Complex_Main "HOL-Library.Signed_Division"
begin

section \<open>SoundOfLife: the synthesis engine of \<^verbatim>\<open>Source/Synthesis.cpp\<close>\<close>

text \<open>
  The engine reads a grid of cells and drives a bank of oscillators from it. The model
  follows \<^verbatim>\<open>Synthesis.cpp\<close> function by function.

  Conventions of the embedding:
  \<^item> a C++ \<^verbatim>\<open>float\<close> is a \<^typ>\<open>real\<close>: rounding is not modelled. A float holds
    every whole number below \<open>2 ^ 24\<close> exactly, so the counts and column indices that
    the source keeps in floats are exact for grids below that size; properties that
    rest on an exact float value are stated for such grids only. A floating-point
    division by zero, whose result is an infinity or a NaN, is the error \<open>NotFinite\<close>;
  \<^item> a C++ \<^verbatim>\<open>int\<close> is an \<^typ>\<open>int\<close>; the integer operators \<^verbatim>\<open>/\<close> and
    \<^verbatim>\<open>%\<close> truncate toward zero (\<open>sdiv\<close>, \<open>smod\<close>) and are the error
    \<open>DivideByZero\<close> on a zero divisor;
  \<^item> an access outside a container is the error \<open>IndexOutOfRange\<close>;
  \<^item> the constants of the namespace \<^verbatim>\<open>Variables\<close> (\<^verbatim>\<open>Variables.h\<close> is not among the
    sources) are the fields of a record passed to every function.
\<close>

subsection \<open>Errors and arithmetic\<close>

datatype error = DivideByZero | NotFinite | IndexOutOfRange

definition bind :: "error + 'a \<Rightarrow> ('a \<Rightarrow> error + 'b) \<Rightarrow> error + 'b" where
  "bind m f = (case m of Inl e \<Rightarrow> Inl e | Inr x \<Rightarrow> f x)"

definition idiv :: "int \<Rightarrow> int \<Rightarrow> error + int" where
  "idiv a b = (if b = 0 then Inl DivideByZero else Inr (a sdiv b))"

definition imod :: "int \<Rightarrow> int \<Rightarrow> error + int" where
  "imod a b = (if b = 0 then Inl DivideByZero else Inr (a smod b))"

definition fdiv :: "real \<Rightarrow> real \<Rightarrow> error + real" where
  "fdiv x y = (if y = 0 then Inl NotFinite else Inr (x / y))"

definition toInt :: "real \<Rightarrow> int" where
  \<comment> \<open>conversion of a float to an int: the fractional part is discarded\<close>
  "toInt x = (if 0 \<le> x then \<lfloor>x\<rfloor> else \<lceil>x\<rceil>)"

fun foldE :: "('a \<Rightarrow> 'b \<Rightarrow> error + 'b) \<Rightarrow> 'a list \<Rightarrow> 'b \<Rightarrow> error + 'b" where
  "foldE f [] acc = Inr acc"
| "foldE f (x # xs) acc = (case f x acc of Inl e \<Rightarrow> Inl e | Inr acc' \<Rightarrow> foldE f xs acc')"

subsection \<open>Configuration, cells and the grid\<close>

record Variables =
  numRows :: int
  numColumns :: int
  numOscillators :: int
  numLFOs :: int
  startFrequency :: real
  inharmonicity :: real
  frequencyLFO :: "real list"
  filterCutoff :: real

record Cell =
  alive :: bool
  fade :: real

type_synonym Grid = "Cell list list"

definition cellAt :: "Grid \<Rightarrow> int \<Rightarrow> int \<Rightarrow> Cell" where
  "cellAt g row column = g ! nat row ! nat column"

definition inGrid :: "Grid \<Rightarrow> int \<Rightarrow> int \<Rightarrow> bool" where
  "inGrid g row column \<longleftrightarrow>
     0 \<le> row \<and> row < int (length g) \<and> 0 \<le> column \<and> column < int (length (g ! nat row))"

definition getCell :: "Grid \<Rightarrow> int \<Rightarrow> int \<Rightarrow> error + Cell" where
  \<comment> \<open>Modelled from the spec: \<^verbatim>\<open>Grid::getCell\<close> (\<^verbatim>\<open>Grid.cpp\<close> is not among the sources);
      the grid is a list of rows, and the bounds are row in [0,numRows), column in
      [0,numColumns).\<close>
  "getCell g row column =
     (if inGrid g row column then Inr (cellAt g row column) else Inl IndexOutOfRange)"

definition setCell :: "Grid \<Rightarrow> int \<Rightarrow> int \<Rightarrow> Cell \<Rightarrow> Grid" where
  "setCell g row column c = g[nat row := (g ! nat row)[nat column := c]]"

subsection \<open>The column block of an oscillator\<close>

text \<open>
  The three functions that walk a block open with the same two lines,
  \<^verbatim>\<open>float startColumn = oscillatorIndex * (numColumns / numOscillators);\<close> and
  \<^verbatim>\<open>float endColumn = startColumn + (numColumns / numOscillators);\<close>, and the same loop
  header \<^verbatim>\<open>for (int column = startColumn; column < endColumn; ++column)\<close>.
  The two locals are floats holding whole numbers. Below \<open>2 ^ 24\<close> a float holds every
  whole number and the product of line 56 is far from the bounds of an \<^verbatim>\<open>int\<close>, so
  there the locals are the reals of the model; the properties of the column range
  below are stated for fewer than \<open>2 ^ 24\<close> columns.
\<close>

definition startColumn :: "Variables \<Rightarrow> int \<Rightarrow> error + real" where
  "startColumn v oscillatorIndex =
     bind (idiv (numColumns v) (numOscillators v)) (\<lambda>w. Inr (of_int (oscillatorIndex * w)))"

definition endColumn :: "Variables \<Rightarrow> real \<Rightarrow> error + real" where
  "endColumn v start =
     bind (idiv (numColumns v) (numOscillators v)) (\<lambda>w. Inr (start + of_int w))"

function columnsFrom :: "int \<Rightarrow> real \<Rightarrow> int list" where
  "columnsFrom column endCol =
     (if of_int column < endCol then column # columnsFrom (column + 1) endCol else [])"
  by pat_completeness auto
termination
  by (relation "measure (\<lambda>(column, endCol). nat (\<lceil>endCol\<rceil> - column))")
    (auto simp: less_ceiling_iff)

declare columnsFrom.simps [simp del]

definition rowsOf :: "Variables \<Rightarrow> int list" where
  \<comment> \<open>\<^verbatim>\<open>for (int row = 0; row < Variables::numRows; ++row)\<close>\<close>
  "rowsOf v = [0 .. numRows v - 1]"

subsection \<open>Gain and pan of an oscillator\<close>

definition getOscillatorGain :: "Variables \<Rightarrow> Grid \<Rightarrow> int \<Rightarrow> error + real" where
  "getOscillatorGain v g oscillatorIndex =
     bind (startColumn v oscillatorIndex) (\<lambda>startCol.
     bind (endColumn v startCol) (\<lambda>endCol.
     bind (foldE (\<lambda>column. foldE (\<lambda>row gain.
             bind (getCell g row column) (\<lambda>c. Inr (gain + fade c))) (rowsOf v))
           (columnsFrom (toInt startCol) endCol) 0) (\<lambda>gain.
     bind (fdiv (of_int (numRows v) * of_int (numColumns v)) (of_int (numOscillators v)))
       (\<lambda>cells.
     fdiv gain cells))))"

definition getOscillatorPan :: "Variables \<Rightarrow> Grid \<Rightarrow> int \<Rightarrow> error + real" where
  "getOscillatorPan v g oscillatorIndex =
     bind (startColumn v oscillatorIndex) (\<lambda>startCol.
     bind (endColumn v startCol) (\<lambda>endCol.
     bind (foldE (\<lambda>column. foldE (\<lambda>row pan.
             bind (getCell g row column) (\<lambda>c.
               if row < numRows v sdiv 2 then Inr (pan + fade c) else Inr (pan - fade c)))
             (rowsOf v))
           (columnsFrom (toInt startCol) endCol) 0) (\<lambda>pan.
     bind (fdiv pan (of_int (numRows v) * (endCol - startCol) / 2)) (\<lambda>pan.
     Inr (if pan > 1 then 1 else if pan < - 1 then - 1 else pan)))))"

definition getSpectralGainDecay :: "Variables \<Rightarrow> real \<Rightarrow> real \<Rightarrow> error + real" where
  "getSpectralGainDecay v gain freq =
     bind (fdiv 1 freq) (\<lambda>recip. Inr (gain * startFrequency v * recip))"

subsection \<open>Collaborators outside the sources\<close>

text \<open>
  The panner (\<^verbatim>\<open>Panner.cpp\<close>), the decay law of a cell (\<^verbatim>\<open>Cell.cpp\<close>), the law by
  which an oscillator computes its phase increment from its frequency and its sample
  rate (\<^verbatim>\<open>Oscillator.cpp\<close>; the specification names the increment and gives no formula)
  and the filter and reverb kernels of the JUCE library are not among the sources, and
  no property below depends on what they compute: they are parameters of the model.
\<close>

record ReverbParameters =
  roomSize :: real
  damping :: real
  wetLevel :: real
  dryLevel :: real
  width :: real
  freezeMode :: real

record Externals =
  fadeDecay :: "real \<Rightarrow> real"
  phaseIncrement :: "real \<Rightarrow> real \<Rightarrow> real"
  pannerProcessBlock :: "real list list \<Rightarrow> real list \<Rightarrow> real list list"
  iirProcessSamples :: "real \<times> real \<Rightarrow> real list \<Rightarrow> real list \<Rightarrow> real list \<times> real list"
  reverbProcessStereo ::
    "ReverbParameters \<Rightarrow> (nat \<Rightarrow> real) \<Rightarrow> real list \<Rightarrow> real list
       \<Rightarrow> (nat \<Rightarrow> real) \<times> real list \<times> real list"

subsection \<open>Oscillators\<close>

record Oscillator =
  frequency :: real
  phase :: real
  phaseDelta :: real
  oscSampleRate :: real
  oscBlockSize :: int

text \<open>
  Modelled from the spec: the class \<^verbatim>\<open>Oscillator\<close> and its sine variant
  (\<^verbatim>\<open>Oscillator.cpp\<close> is not among the sources). The phase wraps at one full cycle and
  the waveform is a sine; the phase increment is what the parameter \<open>phaseIncrement\<close>
  gives for the frequency and the sample rate.
\<close>

definition oscPrepareToPlay ::
  "Externals \<Rightarrow> real \<Rightarrow> real \<Rightarrow> int \<Rightarrow> Oscillator \<Rightarrow> Oscillator" where
  \<comment> \<open>Modelled from the spec: \<^verbatim>\<open>Oscillator::prepareToPlay\<close> resets the phase and
      computes the phase increment for the frequency at the sample rate.\<close>
  "oscPrepareToPlay ext freq rate blk osc =
     osc\<lparr>frequency := freq, phase := 0, phaseDelta := phaseIncrement ext freq rate,
         oscSampleRate := rate, oscBlockSize := blk\<rparr>"

definition setFrequency :: "real \<Rightarrow> Oscillator \<Rightarrow> Oscillator" where
  \<comment> \<open>Modelled from the spec: \<^verbatim>\<open>Oscillator::setFrequency\<close> changes the frequency and
      does not by itself recompute the phase delta.\<close>
  "setFrequency freq osc = osc\<lparr>frequency := freq\<rparr>"

definition getFrequency :: "Oscillator \<Rightarrow> real" where
  "getFrequency osc = frequency osc"

definition updatePhaseDelta :: "Externals \<Rightarrow> Oscillator \<Rightarrow> Oscillator" where
  \<comment> \<open>Modelled from the spec: \<^verbatim>\<open>Oscillator::updatePhaseDelta\<close> recomputes the phase
      increment from the current frequency and the sample rate.\<close>
  "updatePhaseDelta ext osc =
     osc\<lparr>phaseDelta := phaseIncrement ext (frequency osc) (oscSampleRate osc)\<rparr>"

definition processSample :: "Oscillator \<Rightarrow> real \<times> Oscillator" where
  \<comment> \<open>Modelled from the spec: \<^verbatim>\<open>Oscillator::processSample\<close> advances the phase by the
      phase delta, wrapping at one full cycle, and returns the sine at the new phase.\<close>
  "processSample osc =
     (let p = phase osc + phaseDelta osc;
          p' = (if 1 \<le> p then p - 1 else p)
      in (sin (2 * pi * p'), osc\<lparr>phase := p'\<rparr>))"

subsection \<open>Filters, reverb and the engine state\<close>

record IIRFilter =
  coefficients :: "real \<times> real"
  filterMemory :: "real list"

definition makeLowPass :: "real \<Rightarrow> real \<Rightarrow> real \<times> real" where
  \<comment> \<open>\<^verbatim>\<open>juce::IIRCoefficients::makeLowPass (sampleRate, frequency)\<close>: the coefficients
      are kept as the pair of arguments they are computed from.\<close>
  "makeLowPass rate cutoff = (rate, cutoff)"

definition setCoefficients :: "real \<times> real \<Rightarrow> IIRFilter \<Rightarrow> IIRFilter" where
  "setCoefficients c f = f\<lparr>coefficients := c\<rparr>"

definition stableCutoff :: "real \<Rightarrow> real \<Rightarrow> bool" where
  \<comment> \<open>the range of cutoff frequencies for which \<^verbatim>\<open>makeLowPass\<close> is specified:
      above zero and at most half the sample rate\<close>
  "stableCutoff rate cutoff \<longleftrightarrow> 0 < cutoff \<and> cutoff \<le> rate / 2"

record Reverb =
  parameters :: ReverbParameters
  delayLines :: "nat \<Rightarrow> real"

definition defaultReverbParameters :: ReverbParameters where
  "defaultReverbParameters =
     \<lparr>roomSize = 0.5, damping = 0.5, wetLevel = 0.33, dryLevel = 0.4, width = 1,
      freezeMode = 0\<rparr>"

definition reverbReset :: "Reverb \<Rightarrow> Reverb" where
  \<comment> \<open>\<^verbatim>\<open>juce::Reverb::reset\<close> clears the delay lines and leaves the parameters\<close>
  "reverbReset r = r\<lparr>delayLines := (\<lambda>_. 0)\<rparr>"

record Synthesis =
  m_Grid :: Grid
  m_Oscillators :: "Oscillator list"
  m_LFOs :: "Oscillator list"
  m_FilterModulator :: Oscillator
  m_FilterLeft :: IIRFilter
  m_FilterRight :: IIRFilter
  m_Reverb :: Reverb
  m_BlockSize :: int
  m_SampleRate :: real

definition elemAt :: "'a list \<Rightarrow> int \<Rightarrow> error + 'a" where
  "elemAt xs i = (if 0 \<le> i \<and> i < int (length xs) then Inr (xs ! nat i) else Inl IndexOutOfRange)"

definition construct :: "Variables \<Rightarrow> Grid \<Rightarrow> Oscillator \<Rightarrow> Synthesis \<Rightarrow> Synthesis" where
  \<comment> \<open>the constructor: one new oscillator per index below \<^verbatim>\<open>numOscillators\<close> and
      one per index below \<^verbatim>\<open>numLFOs\<close>; \<open>members\<close> holds the other members as their
      own constructors leave them\<close>
  "construct v grid fresh members =
     members\<lparr>m_Grid := grid,
             m_Oscillators := replicate (nat (numOscillators v)) fresh,
             m_LFOs := replicate (nat (numLFOs v)) fresh\<rparr>"

subsection \<open>The fades of a block\<close>

definition updateFade :: "Externals \<Rightarrow> Cell \<Rightarrow> Cell" where
  \<comment> \<open>Modelled from the spec: \<^verbatim>\<open>Cell::updateFade\<close> (\<^verbatim>\<open>Cell.cpp\<close> is not among the sources):
      decay towards zero unless the cell is alive, in which case the fade is reset to
      its maximum, 1. The decay law itself is the parameter \<open>fadeDecay\<close>.\<close>
  "updateFade ext c = (if alive c then c\<lparr>fade := 1\<rparr> else c\<lparr>fade := fadeDecay ext (fade c)\<rparr>)"

definition updateFadeValues :: "Externals \<Rightarrow> Variables \<Rightarrow> Grid \<Rightarrow> int \<Rightarrow> error + Grid" where
  "updateFadeValues ext v g oscillatorIndex =
     bind (startColumn v oscillatorIndex) (\<lambda>startCol.
     bind (endColumn v startCol) (\<lambda>endCol.
     foldE (\<lambda>column. foldE (\<lambda>row g'.
             bind (getCell g' row column) (\<lambda>c. Inr (setCell g' row column (updateFade ext c))))
           (rowsOf v))
       (columnsFrom (toInt startCol) endCol) g))"

subsection \<open>prepareToPlay\<close>

definition prepareOscillators ::
  "Externals \<Rightarrow> Variables \<Rightarrow> real \<Rightarrow> int \<Rightarrow> Oscillator list \<Rightarrow> error + Oscillator list \<times> real" where
  \<comment> \<open>the loop of lines 152 to 161; the running \<^verbatim>\<open>frequency\<close> is carried along\<close>
  "prepareOscillators ext v sampleRate blockSize oscs =
     foldE (\<lambda>i (oscs, freq).
             bind (elemAt oscs i) (\<lambda>osc.
             Inr (oscs[nat i := oscPrepareToPlay ext freq sampleRate blockSize osc],
                  freq + freq / (of_int i + 1) * inharmonicity v)))
       [0 .. numOscillators v - 1] (oscs, startFrequency v)"

definition prepareLFOs ::
  "Externals \<Rightarrow> Variables \<Rightarrow> real \<Rightarrow> int \<Rightarrow> Oscillator list \<Rightarrow> error + Oscillator list" where
  \<comment> \<open>the loop of lines 164 and 165\<close>
  "prepareLFOs ext v sampleRate blockSize lfos =
     foldE (\<lambda>i lfos.
             bind (elemAt lfos i) (\<lambda>lfo.
             bind (elemAt (frequencyLFO v) i) (\<lambda>freq.
             Inr (lfos[nat i := oscPrepareToPlay ext freq sampleRate blockSize lfo]))))
       [0 .. numLFOs v - 1] lfos"

definition prepareToPlay ::
  "Externals \<Rightarrow> Variables \<Rightarrow> real \<Rightarrow> int \<Rightarrow> Synthesis \<Rightarrow> error + Synthesis" where
  "prepareToPlay ext v sampleRate blockSize s =
     bind (prepareOscillators ext v sampleRate blockSize (m_Oscillators s)) (\<lambda>(oscs, freq).
     bind (prepareLFOs ext v sampleRate blockSize (m_LFOs s)) (\<lambda>lfos.
     let lowPass = makeLowPass sampleRate (filterCutoff v);
         reverbParameters =
           defaultReverbParameters\<lparr>dryLevel := 0.5, wetLevel := 0.5, roomSize := 1\<rparr>
     in Inr (s\<lparr>m_Oscillators := oscs,
               m_LFOs := lfos,
               m_FilterModulator := oscPrepareToPlay ext 0.1 sampleRate blockSize (m_FilterModulator s),
               m_BlockSize := blockSize,
               m_SampleRate := sampleRate,
               m_FilterLeft := setCoefficients lowPass (m_FilterLeft s),
               m_FilterRight := setCoefficients lowPass (m_FilterRight s),
               m_Reverb := reverbReset (m_Reverb s)\<rparr>)))"

subsection \<open>processBlock\<close>

definition getNumSamples :: "real list list \<Rightarrow> int" where
  "getNumSamples buffer = (case buffer of [] \<Rightarrow> 0 | channel # _ \<Rightarrow> int (length channel))"

definition modulatedFrequency :: "real \<Rightarrow> int \<Rightarrow> real \<Rightarrow> real" where
  \<comment> \<open>line 221\<close>
  "modulatedFrequency currentFrequency oscillatorIndex modulator =
     currentFrequency + ((currentFrequency / of_int ((oscillatorIndex + 1) * 5)) * modulator)"

definition oscillatorAmplitude :: "Variables \<Rightarrow> Grid \<Rightarrow> int \<Rightarrow> real \<Rightarrow> error + real" where
  \<comment> \<open>lines 230 and 231: \<^verbatim>\<open>gain = getOscillatorGain (i); gain *= getSpectralGainDecay (gain, f);\<close>\<close>
  "oscillatorAmplitude v g oscillatorIndex freq =
     bind (getOscillatorGain v g oscillatorIndex) (\<lambda>gain.
     bind (getSpectralGainDecay v gain freq) (\<lambda>decay.
     Inr (gain * decay)))"

definition addToBlock :: "real list list \<Rightarrow> int \<Rightarrow> real \<Rightarrow> error + real list list" where
  \<comment> \<open>lines 243 to 247: \<^verbatim>\<open>channelData[i] += sample\<close> on every channel\<close>
  "addToBlock block i sample =
     (if list_all (\<lambda>channelData. 0 \<le> i \<and> i < int (length channelData)) block
      then Inr (map (\<lambda>channelData. channelData[nat i := channelData ! nat i + sample]) block)
      else Inl IndexOutOfRange)"

definition processOscillatorSample ::
  "Externals \<Rightarrow> Variables \<Rightarrow> int \<Rightarrow> int \<Rightarrow> Synthesis \<times> real list list \<times> real list
     \<Rightarrow> error + Synthesis \<times> real list list \<times> real list" where
  \<comment> \<open>the body of the loop over the samples, lines 217 to 250\<close>
  "processOscillatorSample ext v oscillatorIndex i = (\<lambda>(s, block, panValues).
     bind (imod oscillatorIndex (numLFOs v)) (\<lambda>l.
     bind (elemAt (m_LFOs s) l) (\<lambda>lfo.
     let (modulator, lfo') = processSample lfo;
         s1 = s\<lparr>m_LFOs := (m_LFOs s)[nat l := lfo']\<rparr>
     in
     bind (elemAt (m_Oscillators s1) oscillatorIndex) (\<lambda>osc.
     let currentFrequency = getFrequency osc;
         modulated = modulatedFrequency currentFrequency oscillatorIndex modulator;
         (sample, osc') = processSample (updatePhaseDelta ext (setFrequency modulated osc))
     in
     bind (oscillatorAmplitude v (m_Grid s1) oscillatorIndex (getFrequency osc')) (\<lambda>gain.
     bind (getOscillatorPan v (m_Grid s1) oscillatorIndex) (\<lambda>pan.
     bind (updateFadeValues ext v (m_Grid s1) oscillatorIndex) (\<lambda>grid'.
     bind (addToBlock block i (sample * gain)) (\<lambda>block'.
     Inr (s1\<lparr>m_Grid := grid',
              m_Oscillators :=
                (m_Oscillators s1)[nat oscillatorIndex := setFrequency currentFrequency osc']\<rparr>,
          block',
          panValues @ [pan])))))))))"

definition processOscillator ::
  "Externals \<Rightarrow> Variables \<Rightarrow> int \<Rightarrow> int \<Rightarrow> Synthesis \<times> real list list
     \<Rightarrow> error + Synthesis \<times> real list list" where
  \<comment> \<open>the body of the loop over the oscillators, lines 213 to 254\<close>
  "processOscillator ext v blockSize oscillatorIndex = (\<lambda>(s, block).
     bind (foldE (processOscillatorSample ext v oscillatorIndex) [0 .. blockSize - 1]
             (s, block, []))
       (\<lambda>(s', block', panValues). Inr (s', pannerProcessBlock ext block' panValues)))"

definition sweptCutoff :: "Variables \<Rightarrow> real \<Rightarrow> real" where
  \<comment> \<open>lines 267 and 268: the frequency given to \<^verbatim>\<open>makeLowPass\<close> for both channels\<close>
  "sweptCutoff v filterModulator = filterCutoff v * (filterModulator + 1.001) * 100"

definition softClip :: "real \<Rightarrow> real" where
  "softClip x = tanh (x * 5)"

definition processBlock ::
  "Externals \<Rightarrow> Variables \<Rightarrow> Synthesis \<Rightarrow> real list list
     \<Rightarrow> error + Synthesis \<times> real list list" where
  "processBlock ext v s buffer =
     (let numChannels = length buffer;
          blockSize = getNumSamples buffer;
          cleared = replicate numChannels (replicate (nat blockSize) 0)
      in
      bind (foldE (processOscillator ext v blockSize) [0 .. numOscillators v - 1] (s, cleared))
        (\<lambda>(s1, block).
      let mixed = map2 (map2 (+)) cleared block in
      bind (elemAt mixed 0) (\<lambda>leftChannel.
      bind (elemAt mixed 1) (\<lambda>rightChannel.
      let (filterModulator, modulator') = processSample (m_FilterModulator s1);
          lowPass = makeLowPass (m_SampleRate s1) (sweptCutoff v filterModulator);
          filterLeft = setCoefficients lowPass (m_FilterLeft s1);
          filterRight = setCoefficients lowPass (m_FilterRight s1);
          (memoryLeft, left1) =
             iirProcessSamples ext (coefficients filterLeft) (filterMemory filterLeft) leftChannel;
          (memoryRight, right1) =
             iirProcessSamples ext (coefficients filterRight) (filterMemory filterRight)
               rightChannel;
          left2 = map softClip left1;
          right2 = map softClip right1;
          (lines, left3, right3) =
             reverbProcessStereo ext (parameters (m_Reverb s1)) (delayLines (m_Reverb s1))
               left2 right2;
          reverb = (m_Reverb s1)\<lparr>delayLines := lines\<rparr>
      in Inr (s1\<lparr>m_FilterModulator := modulator',
                 m_FilterLeft := filterLeft\<lparr>filterMemory := memoryLeft\<rparr>,
                 m_FilterRight := filterRight\<lparr>filterMemory := memoryRight\<rparr>,
                 m_Reverb := reverbReset reverb\<rparr>,
              left3 # right3 # drop 2 mixed)))))"

subsection \<open>Well-formed configurations and the words of the specification\<close>

text \<open>
  The source fixes no bound on its constants. A configuration is valid when none of the
  divisions of the block functions has a zero divisor: there is a row, there is an
  oscillator, and every oscillator owns at least one column.
\<close>

definition columnsPerOscillator :: "Variables \<Rightarrow> int" where
  "columnsPerOscillator v = numColumns v sdiv numOscillators v"

definition validConfig :: "Variables \<Rightarrow> bool" where
  "validConfig v \<longleftrightarrow> 0 < numRows v \<and> 0 < numOscillators v \<and> numOscillators v \<le> numColumns v"

text \<open>
  The divisions of \<open>getOscillatorGain\<close> alone have a non-zero divisor as soon as the
  three dimensions are positive. A grid is small when it has fewer than \<open>2 ^ 24\<close> cells:
  then every count of rows, columns and cells that the source holds in a float is held
  exactly.
\<close>

definition positiveConfig :: "Variables \<Rightarrow> bool" where
  "positiveConfig v \<longleftrightarrow> 0 < numRows v \<and> 0 < numOscillators v \<and> 0 < numColumns v"

definition smallGrid :: "Variables \<Rightarrow> bool" where
  "smallGrid v \<longleftrightarrow> numRows v * numColumns v < 2 ^ 24"

definition gridFits :: "Variables \<Rightarrow> Grid \<Rightarrow> bool" where
  "gridFits v g \<longleftrightarrow>
     length g = nat (numRows v) \<and> list_all (\<lambda>row. length row = nat (numColumns v)) g"

definition fadesInUnit :: "Grid \<Rightarrow> bool" where
  "fadesInUnit g \<longleftrightarrow> list_all (list_all (\<lambda>c. 0 \<le> fade c \<and> fade c \<le> 1)) g"

definition blockCells :: "Variables \<Rightarrow> int \<Rightarrow> (int \<times> int) list" where
  "blockCells v i =
     concat (map (\<lambda>column. map (\<lambda>row. (row, column)) [0 .. numRows v - 1])
       [i * columnsPerOscillator v .. (i + 1) * columnsPerOscillator v - 1])"

definition blockFades :: "Variables \<Rightarrow> Grid \<Rightarrow> int \<Rightarrow> real list" where
  "blockFades v g i = map (\<lambda>(row, column). fade (cellAt g row column)) (blockCells v i)"

definition topHalfSum :: "Variables \<Rightarrow> Grid \<Rightarrow> int \<Rightarrow> real" where
  "topHalfSum v g i =
     sum_list (map (\<lambda>(row, column). fade (cellAt g row column))
       (filter (\<lambda>(row, column). row < numRows v sdiv 2) (blockCells v i)))"

definition bottomHalfSum :: "Variables \<Rightarrow> Grid \<Rightarrow> int \<Rightarrow> real" where
  "bottomHalfSum v g i =
     sum_list (map (\<lambda>(row, column). fade (cellAt g row column))
       (filter (\<lambda>(row, column). \<not> row < numRows v sdiv 2) (blockCells v i)))"

definition clampPan :: "real \<Rightarrow> real" where
  "clampPan pan = (if pan > 1 then 1 else if pan < - 1 then - 1 else pan)"

text \<open>
  The constructor adds one oscillator per index below \<^verbatim>\<open>numOscillators\<close> and one per
  index below \<^verbatim>\<open>numLFOs\<close>; \<open>built\<close> records that. The table
  \<^verbatim>\<open>Variables::frequencyLFO\<close> covers the LFOs when it has an entry for each.
\<close>

definition built :: "Variables \<Rightarrow> Synthesis \<Rightarrow> bool" where
  "built v s \<longleftrightarrow>
     length (m_Oscillators s) = nat (numOscillators v) \<and> length (m_LFOs s) = nat (numLFOs v)"

definition tableCovers :: "Variables \<Rightarrow> bool" where
  "tableCovers v \<longleftrightarrow> nat (numLFOs v) \<le> length (frequencyLFO v)"

fun harmonicFrequency :: "Variables \<Rightarrow> nat \<Rightarrow> real" where
  "harmonicFrequency v 0 = startFrequency v"
| "harmonicFrequency v (Suc n) =
     harmonicFrequency v n + harmonicFrequency v n / (of_nat n + 1) * inharmonicity v"

text \<open>
  \<open>processBlock\<close> needs more than the block functions: an LFO for the index
  \<^verbatim>\<open>oscillatorIndex % numLFOs\<close>, oscillators whose frequency is not zero (line 117
  divides by it), a panner that works in place and so keeps the shape of the block, and
  a buffer of at least two channels of one length.
\<close>

definition playable :: "Variables \<Rightarrow> bool" where
  "playable v \<longleftrightarrow> validConfig v \<and> 0 < numLFOs v"

definition engineReady :: "Variables \<Rightarrow> Synthesis \<Rightarrow> bool" where
  "engineReady v s \<longleftrightarrow>
     built v s \<and> gridFits v (m_Grid s) \<and>
     list_all (\<lambda>osc. frequency osc \<noteq> 0) (m_Oscillators s)"

definition shapePreserving :: "Externals \<Rightarrow> bool" where
  "shapePreserving ext \<longleftrightarrow>
     (\<forall>block panValues. map length (pannerProcessBlock ext block panValues) = map length block)"

definition stereoBuffer :: "real list list \<Rightarrow> bool" where
  "stereoBuffer buffer \<longleftrightarrow>
     2 \<le> length buffer \<and>
     list_all (\<lambda>channel. int (length channel) = getNumSamples buffer) buffer"

definition sameFrame :: "Synthesis \<Rightarrow> Synthesis \<Rightarrow> bool" where
  "sameFrame s s' \<longleftrightarrow>
     map frequency (m_Oscillators s') = map frequency (m_Oscillators s) \<and>
     m_FilterModulator s' = m_FilterModulator s \<and>
     m_FilterLeft s' = m_FilterLeft s \<and> m_FilterRight s' = m_FilterRight s \<and>
     m_Reverb s' = m_Reverb s \<and>
     m_SampleRate s' = m_SampleRate s \<and> m_BlockSize s' = m_BlockSize s"


subsection \<open>Example data\<close>

definition demoVariables :: Variables where
  "demoVariables = \<lparr>numRows = 2, numColumns = 4, numOscillators = 2, numLFOs = 1,
     startFrequency = 100, inharmonicity = 1, frequencyLFO = [25], filterCutoff = 10\<rparr>"

definition demoCell :: "real \<Rightarrow> Cell" where
  "demoCell x = \<lparr>alive = False, fade = x\<rparr>"

definition demoGrid :: Grid where
  "demoGrid = [[demoCell 1, demoCell 1, demoCell 0, demoCell 0],
               [demoCell 1, demoCell 1, demoCell 0, demoCell 0]]"

definition oddVariables :: Variables where
  "oddVariables = demoVariables\<lparr>numRows := 1, numColumns := 3\<rparr>"

definition oddGrid :: Grid where
  "oddGrid = [[demoCell 1, demoCell 1, demoCell 1]]"

definition demoOscillator :: Oscillator where
  "demoOscillator =
     \<lparr>frequency = 0, phase = 0, phaseDelta = 0, oscSampleRate = 0, oscBlockSize = 0\<rparr>"

definition demoMembers :: Synthesis where
  "demoMembers =
     \<lparr>m_Grid = [], m_Oscillators = [], m_LFOs = [], m_FilterModulator = demoOscillator,
      m_FilterLeft = \<lparr>coefficients = (0, 0), filterMemory = []\<rparr>,
      m_FilterRight = \<lparr>coefficients = (0, 0), filterMemory = []\<rparr>,
      m_Reverb = \<lparr>parameters = defaultReverbParameters, delayLines = (\<lambda>_. 0)\<rparr>,
      m_BlockSize = 0, m_SampleRate = 0\<rparr>"

definition demoSynthesis :: Synthesis where
  "demoSynthesis = construct demoVariables demoGrid demoOscillator demoMembers"

definition halfGrid :: Grid where
  "halfGrid = [[demoCell 1, demoCell 1, demoCell 0, demoCell 0],
               [demoCell 0, demoCell 0, demoCell 0, demoCell 0]]"

definition demoExternals :: Externals where
  "demoExternals =
     \<lparr>fadeDecay = (\<lambda>x. x / 2),
      phaseIncrement = (\<lambda>freq rate. freq / rate),
      pannerProcessBlock = (\<lambda>block panValues. block),
      iirProcessSamples = (\<lambda>c memory samples. (memory, samples)),
      reverbProcessStereo = (\<lambda>p lines left right. (\<lambda>n. 1, left, right))\<rparr>"

definition tone :: "real \<Rightarrow> Oscillator" where
  "tone freq =
     \<lparr>frequency = freq, phase = 0, phaseDelta = freq / 48000, oscSampleRate = 48000,
      oscBlockSize = 1\<rparr>"

definition soloVariables :: Variables where
  "soloVariables = \<lparr>numRows = 1, numColumns = 1, numOscillators = 1, numLFOs = 1,
     startFrequency = 100, inharmonicity = 1, frequencyLFO = [25], filterCutoff = 1000\<rparr>"

definition soloSynthesis :: Synthesis where
  "soloSynthesis =
     \<lparr>m_Grid = [[demoCell 1]], m_Oscillators = [tone 100], m_LFOs = [tone 25],
      m_FilterModulator = tone (1 / 10),
      m_FilterLeft = \<lparr>coefficients = makeLowPass 48000 1000, filterMemory = []\<rparr>,
      m_FilterRight = \<lparr>coefficients = makeLowPass 48000 1000, filterMemory = []\<rparr>,
      m_Reverb = \<lparr>parameters = defaultReverbParameters, delayLines = (\<lambda>_. 0)\<rparr>,
      m_BlockSize = 1, m_SampleRate = 48000\<rparr>"

definition soloBuffer :: "real list list" where
  "soloBuffer = [[0], [0]]"

definition soloAfter :: Synthesis where
  "soloAfter = fst (projr (processBlock demoExternals soloVariables soloSynthesis soloBuffer))"

definition thinVariables :: Variables where
  "thinVariables = demoVariables\<lparr>numRows := 2, numColumns := 1\<rparr>"

definition thinGrid :: Grid where
  "thinGrid = [[demoCell 1], [demoCell 1]]"

definition crowdedVariables :: Variables where
  "crowdedVariables = demoVariables\<lparr>numRows := 2, numColumns := 2, numOscillators := 4\<rparr>"

definition crowdedGrid :: Grid where
  "crowdedGrid = [[demoCell 1, demoCell 1], [demoCell 1, demoCell 1]]"

section \<open>Properties\<close>

subsection \<open>The error monad and the loops\<close>

lemma bind_Inr [simp]: "bind (Inr x) f = f x" by (simp add: bind_def)
lemma bind_Inl [simp]: "bind (Inl e) f = Inl e" by (simp add: bind_def)

lemma columnsFrom_int: "columnsFrom a (of_int b) = [a .. b - 1]"
proof (induction "nat (b - a)" arbitrary: a)
  case 0
  then show ?case by (subst columnsFrom.simps) simp
next
  case (Suc n)
  then have lt: "a < b" and n: "n = nat (b - (a + 1))" by linarith+
  from Suc(1)[OF n] lt show ?case
    by (subst columnsFrom.simps) (simp add: upto_rec1[of a "b - 1"])
qed

lemma toInt_of_int [simp]: "toInt (of_int a) = a"
  by (simp add: toInt_def)

lemma foldE_sum:
  assumes "\<And>x acc. x \<in> set xs \<Longrightarrow> f x acc = Inr (acc + h x)"
  shows "foldE f xs acc = Inr (acc + sum_list (map h xs))"
  using assms by (induction xs arbitrary: acc) (simp_all add: add.assoc)

lemma sdiv_nonneg: "0 \<le> a \<Longrightarrow> 0 < b \<Longrightarrow> (a::int) sdiv b = a div b"
  by (simp add: signed_divide_int_def sgn_if)

lemma valid_positive: "validConfig v \<Longrightarrow> positiveConfig v"
  by (auto simp: validConfig_def positiveConfig_def)

lemma width_div:
  "positiveConfig v \<Longrightarrow> columnsPerOscillator v = numColumns v div numOscillators v"
  by (simp add: columnsPerOscillator_def positiveConfig_def sdiv_nonneg)

lemma width_nonneg: "positiveConfig v \<Longrightarrow> 0 \<le> columnsPerOscillator v"
  by (simp add: width_div positiveConfig_def pos_imp_zdiv_nonneg_iff)

lemma width_pos: "validConfig v \<Longrightarrow> 0 < columnsPerOscillator v"
  by (simp add: width_div valid_positive) (simp add: validConfig_def pos_imp_zdiv_pos_iff)

lemma block_within:
  assumes "positiveConfig v" "0 \<le> i" "i < numOscillators v"
  shows "0 \<le> i * columnsPerOscillator v" "(i + 1) * columnsPerOscillator v \<le> numColumns v"
proof -
  let ?w = "columnsPerOscillator v"
  have w: "0 \<le> ?w" using assms(1) by (rule width_nonneg)
  show "0 \<le> i * ?w" using assms(2) w by simp
  have "(i + 1) * ?w \<le> numOscillators v * ?w"
    using assms(3) w by (intro mult_right_mono) simp_all
  also have "\<dots> \<le> numColumns v"
  proof -
    have "0 \<le> numColumns v mod numOscillators v"
      using assms(1) by (simp add: positiveConfig_def)
    moreover have "numOscillators v * (numColumns v div numOscillators v) =
        numColumns v - numColumns v mod numOscillators v"
      by (simp add: minus_mod_eq_mult_div)
    ultimately show ?thesis using assms(1) by (simp add: width_div)
  qed
  finally show "(i + 1) * ?w \<le> numColumns v" .
qed

lemma startColumn_value:
  "numOscillators v \<noteq> 0 \<Longrightarrow> startColumn v i = Inr (of_int (i * columnsPerOscillator v))"
  by (simp add: startColumn_def idiv_def columnsPerOscillator_def)

lemma endColumn_value:
  "numOscillators v \<noteq> 0 \<Longrightarrow>
     endColumn v (of_int a) = Inr (of_int (a + columnsPerOscillator v))"
  by (simp add: endColumn_def idiv_def columnsPerOscillator_def)

lemma getCell_inside:
  assumes "gridFits v g" "0 \<le> row" "row < numRows v" "0 \<le> column" "column < numColumns v"
  shows "getCell g row column = Inr (cellAt g row column)"
proof -
  have r: "nat row < length g" using assms by (simp add: gridFits_def)
  then have "length (g ! nat row) = nat (numColumns v)"
    using assms(1) by (simp add: gridFits_def list_all_length)
  with r assms show ?thesis by (simp add: getCell_def inGrid_def)
qed

lemma sum_list_concat_map:
  "sum_list (map h (concat (map k xs))) = sum_list (map (\<lambda>x. sum_list (map h (k x))) xs)"
  by (induction xs) simp_all

lemma rows_fold:
  assumes fit: "gridFits v g" and col: "0 \<le> column" "column < numColumns v"
    and body: "\<And>row acc c. f row acc c = Inr (acc + h row c)"
  shows "foldE (\<lambda>row acc. bind (getCell g row column) (f row acc)) (rowsOf v) acc =
     Inr (acc + sum_list (map (\<lambda>row. h row (cellAt g row column)) (rowsOf v)))"
proof (rule foldE_sum)
  fix row acc
  assume "row \<in> set (rowsOf v)"
  then have "0 \<le> row" "row < numRows v" by (simp_all add: rowsOf_def)
  then show "bind (getCell g row column) (f row acc) = Inr (acc + h row (cellAt g row column))"
    using fit col by (simp add: getCell_inside body)
qed

lemma block_fold:
  assumes cfg: "positiveConfig v" and fit: "gridFits v g"
    and idx: "0 \<le> i" "i < numOscillators v"
    and body: "\<And>row acc c. f row acc c = Inr (acc + h row c)"
  shows "foldE (\<lambda>column. foldE (\<lambda>row acc. bind (getCell g row column) (f row acc)) (rowsOf v))
           [i * columnsPerOscillator v .. (i + 1) * columnsPerOscillator v - 1] 0 =
     Inr (sum_list (map (\<lambda>(row, column). h row (cellAt g row column)) (blockCells v i)))"
proof -
  let ?cols = "[i * columnsPerOscillator v .. (i + 1) * columnsPerOscillator v - 1]"
  let ?colsum = "\<lambda>column. sum_list (map (\<lambda>row. h row (cellAt g row column)) (rowsOf v))"
  have "foldE (\<lambda>column. foldE (\<lambda>row acc. bind (getCell g row column) (f row acc)) (rowsOf v))
          ?cols 0 = Inr (0 + sum_list (map ?colsum ?cols))"
  proof (rule foldE_sum)
    fix column acc
    assume "column \<in> set ?cols"
    then have c: "0 \<le> column" "column < numColumns v"
      using block_within[OF cfg idx] by simp_all
    show "foldE (\<lambda>row acc. bind (getCell g row column) (f row acc)) (rowsOf v) acc =
        Inr (acc + ?colsum column)"
      by (rule rows_fold[OF fit c body])
  qed
  moreover have "sum_list (map ?colsum ?cols) =
      sum_list (map (\<lambda>(row, column). h row (cellAt g row column)) (blockCells v i))"
    by (simp add: blockCells_def rowsOf_def sum_list_concat_map comp_def)
  ultimately show ?thesis by simp
qed

lemma cells_nonzero:
  assumes "positiveConfig v"
  shows "(of_int (numRows v) * of_int (numColumns v) / of_int (numOscillators v) :: real) \<noteq> 0"
  using assms by (simp add: positiveConfig_def)

lemma gain_value:
  assumes cfg: "positiveConfig v" and fit: "gridFits v g"
    and idx: "0 \<le> i" "i < numOscillators v"
  shows "getOscillatorGain v g i =
     Inr (sum_list (blockFades v g i) /
          (of_int (numRows v) * of_int (numColumns v) / of_int (numOscillators v)))"
proof -
  let ?w = "columnsPerOscillator v"
  have no: "numOscillators v \<noteq> 0" using cfg by (simp add: positiveConfig_def)
  have st: "startColumn v i = Inr (of_int (i * ?w))" using no by (rule startColumn_value)
  have en: "endColumn v (of_int (i * ?w)) = Inr (of_int (i * ?w + ?w))"
    using no by (rule endColumn_value)
  have cols: "columnsFrom (toInt (of_int (i * ?w))) (of_int (i * ?w + ?w)) =
      [i * ?w .. (i + 1) * ?w - 1]"
    by (simp only: columnsFrom_int toInt_of_int) (simp add: algebra_simps)
  have walk: "foldE (\<lambda>column. foldE (\<lambda>row gain.
              bind (getCell g row column) (\<lambda>c. Inr (gain + fade c))) (rowsOf v))
            [i * ?w .. (i + 1) * ?w - 1] 0 = Inr (sum_list (blockFades v g i))"
    unfolding blockFades_def
    by (rule block_fold[OF cfg fit idx, where f = "\<lambda>row gain c. Inr (gain + fade c)"
          and h = "\<lambda>row c. fade c"]) simp
  show ?thesis
    unfolding getOscillatorGain_def st en cols walk bind_Inr
    using cells_nonzero[OF cfg] by (simp add: fdiv_def)
qed









lemma sum_list_signed:
  "sum_list (map (\<lambda>(row, column). if P row then f row column else - f row column) xs) =
     sum_list (map (\<lambda>(row, column). f row column) (filter (\<lambda>(row, column). P row) xs)) -
     (sum_list (map (\<lambda>(row, column). f row column)
        (filter (\<lambda>(row, column). \<not> P row) xs)) :: real)"
  by (induction xs) auto

lemma pan_value:
  assumes cfg: "validConfig v" and fit: "gridFits v g"
    and idx: "0 \<le> i" "i < numOscillators v"
  shows "getOscillatorPan v g i =
     Inr (clampPan ((topHalfSum v g i - bottomHalfSum v g i) /
          (of_int (numRows v) * of_int (columnsPerOscillator v) / 2)))"
proof -
  let ?w = "columnsPerOscillator v"
  let ?signed = "\<lambda>row c. if row < numRows v sdiv 2 then fade c else - fade c"
  have no: "numOscillators v \<noteq> 0" using cfg by (simp add: validConfig_def)
  have st: "startColumn v i = Inr (of_int (i * ?w))" using no by (rule startColumn_value)
  have en: "endColumn v (of_int (i * ?w)) = Inr (of_int (i * ?w + ?w))"
    using no by (rule endColumn_value)
  have cols: "columnsFrom (toInt (of_int (i * ?w))) (of_int (i * ?w + ?w)) =
      [i * ?w .. (i + 1) * ?w - 1]"
    by (simp only: columnsFrom_int toInt_of_int) (simp add: algebra_simps)
  have walk: "foldE (\<lambda>column. foldE (\<lambda>row pan.
              bind (getCell g row column) (\<lambda>c.
                if row < numRows v sdiv 2 then Inr (pan + fade c) else Inr (pan - fade c)))
              (rowsOf v))
            [i * ?w .. (i + 1) * ?w - 1] 0 =
      Inr (sum_list (map (\<lambda>(row, column). ?signed row (cellAt g row column)) (blockCells v i)))"
    by (rule block_fold[OF valid_positive[OF cfg] fit idx, where
          f = "\<lambda>row pan c. if row < numRows v sdiv 2 then Inr (pan + fade c) else Inr (pan - fade c)"
          and h = ?signed]) simp
  have split: "sum_list (map (\<lambda>(row, column). ?signed row (cellAt g row column)) (blockCells v i)) =
      topHalfSum v g i - bottomHalfSum v g i"
    unfolding topHalfSum_def bottomHalfSum_def
    by (rule sum_list_signed[of "\<lambda>row. row < numRows v sdiv 2"
          "\<lambda>row column. fade (cellAt g row column)"])
  have width: "(of_int (i * ?w + ?w) - of_int (i * ?w) :: real) = of_int ?w" by simp
  have nz: "(of_int (numRows v) * of_int ?w / 2 :: real) \<noteq> 0"
    using cfg width_pos[OF cfg] by (simp add: validConfig_def)
  show ?thesis
    unfolding getOscillatorPan_def st en cols walk bind_Inr split width
    using nz by (simp add: fdiv_def clampPan_def)
qed

subsection \<open>Gain of an oscillator\<close>




subsection \<open>Pan of an oscillator\<close>

text \<open>
  Claim C5, as amended. When every oscillator owns at least one column, for a small grid
  of the configured dimensions whose fades lie in [0,1] and an oscillator index in
  range, \<open>getOscillatorPan\<close> returns a value in [-1,1]. It returns exactly 0 when the
  fades of the top half of the rows of the block and those of the bottom half have the
  same sum and every fade of the block is 0 or 1, so that the running sum of the source
  is a whole number at every step.
\<close>

theorem getOscillatorPan_range:
  assumes "validConfig v" "smallGrid v" "gridFits v g" "fadesInUnit g"
    and "0 \<le> i" "i < numOscillators v"
  shows "\<exists>pan. getOscillatorPan v g i = Inr pan \<and> - 1 \<le> pan \<and> pan \<le> 1 \<and>
     (list_all (\<lambda>x. x = 0 \<or> x = 1) (blockFades v g i) \<and>
      topHalfSum v g i = bottomHalfSum v g i \<longrightarrow> pan = 0)"
  using pan_value[OF assms(1,3,5,6)] by (simp add: clampPan_def)

theorem getOscillatorPan_range_witness:
  "validConfig demoVariables \<and> smallGrid demoVariables \<and>
   gridFits demoVariables demoGrid \<and> fadesInUnit demoGrid \<and>
   blockFades demoVariables demoGrid 0 = [1, 1, 1, 1] \<and>
   topHalfSum demoVariables demoGrid 0 = bottomHalfSum demoVariables demoGrid 0 \<and>
   getOscillatorPan demoVariables demoGrid 0 = Inr 0"
proof -
  have cfg: "validConfig demoVariables" and small: "smallGrid demoVariables"
    and fit: "gridFits demoVariables demoGrid" and unit: "fadesInUnit demoGrid"
    by code_simp+
  have idx: "(0::int) \<le> 0" "0 < numOscillators demoVariables" by code_simp+
  have ones: "blockFades demoVariables demoGrid 0 = [1, 1, 1, 1]" by code_simp
  have eq: "topHalfSum demoVariables demoGrid 0 = bottomHalfSum demoVariables demoGrid 0"
    by code_simp
  show ?thesis
    using getOscillatorPan_range[OF cfg small fit unit idx] cfg small fit unit eq ones by auto
qed

text \<open>
  Claim C5 as stated gives a value in [-1,1] for every oscillator index and every grid
  state. With two rows, two columns and four oscillators the block of oscillator 0 has
  no column, line 98 divides zero by zero, and the clamp lets the result through.
\<close>

theorem getOscillatorPan_counterexample:
  "positiveConfig crowdedVariables \<and> smallGrid crowdedVariables \<and>
   gridFits crowdedVariables crowdedGrid \<and> fadesInUnit crowdedGrid \<and>
   getOscillatorPan crowdedVariables crowdedGrid 0 = Inl NotFinite"
  by code_simp

subsection \<open>The partition of the columns\<close>






subsection \<open>prepareToPlay\<close>

lemma foldE_append:
  "foldE f (xs @ ys) acc = bind (foldE f xs acc) (foldE f ys)"
  by (induction xs arbitrary: acc) (simp_all split: sum.splits)

lemma foldE_invariant:
  assumes "P acc"
    and "\<And>x acc. x \<in> set xs \<Longrightarrow> P acc \<Longrightarrow> \<exists>acc'. f x acc = Inr acc' \<and> P acc'"
  shows "\<exists>acc'. foldE f xs acc = Inr acc' \<and> P acc'"
  using assms
proof (induction xs arbitrary: acc)
  case Nil
  then show ?case by simp
next
  case (Cons x xs)
  from Cons.prems(2)[of x acc] Cons.prems(1)
  obtain acc1 where step: "f x acc = Inr acc1" and inv: "P acc1" by auto
  from Cons.IH[OF inv] Cons.prems(2) obtain acc2 where "foldE f xs acc1 = Inr acc2" "P acc2"
    by auto
  with step show ?case by simp
qed

lemma elemAt_inside: "0 \<le> i \<Longrightarrow> nat i < length xs \<Longrightarrow> elemAt xs i = Inr (xs ! nat i)"
  by (simp add: elemAt_def)

lemma upto_snoc: "[0 .. int (Suc k) - 1] = [0 .. int k - 1] @ [int k]"
  using upto_rec2[of 0 "int k"] by simp

lemma upto_nat: "[0 .. int (nat n) - 1] = [0 .. n - 1]"
  by (cases "0 \<le> n") simp_all

lemma prepareOscillators_prefix:
  fixes ext v sampleRate blockSize
  defines "step \<equiv> (\<lambda>i (oscs, freq).
             bind (elemAt oscs i) (\<lambda>osc.
             Inr (oscs[nat i := oscPrepareToPlay ext freq sampleRate blockSize osc],
                  freq + freq / (of_int i + 1) * inharmonicity v)))"
  assumes "k \<le> length oscs"
  shows "\<exists>oscs'. foldE step [0 .. int k - 1] (oscs, startFrequency v) =
       Inr (oscs', harmonicFrequency v k) \<and>
     length oscs' = length oscs \<and>
     (\<forall>j < k. frequency (oscs' ! j) = harmonicFrequency v j)"
  using assms(2)
proof (induction k)
  case 0
  then show ?case by simp
next
  case (Suc k)
  then obtain oscs1 where
    run: "foldE step [0 .. int k - 1] (oscs, startFrequency v) =
       Inr (oscs1, harmonicFrequency v k)"
    and len: "length oscs1 = length oscs"
    and freqs: "\<forall>j < k. frequency (oscs1 ! j) = harmonicFrequency v j"
    by auto
  have k: "k < length oscs1" using Suc.prems len by simp
  let ?oscs' = "oscs1[k := oscPrepareToPlay ext (harmonicFrequency v k) sampleRate blockSize (oscs1 ! k)]"
  have "foldE step [0 .. int (Suc k) - 1] (oscs, startFrequency v) =
      bind (foldE step [0 .. int k - 1] (oscs, startFrequency v)) (foldE step [int k])"
    unfolding upto_snoc by (rule foldE_append)
  also have "\<dots> = foldE step [int k] (oscs1, harmonicFrequency v k)"
    by (simp only: run bind_Inr)
  also have "\<dots> = Inr (?oscs', harmonicFrequency v (Suc k))"
    using k by (simp add: step_def elemAt_inside)
  finally have "foldE step [0 .. int (Suc k) - 1] (oscs, startFrequency v) =
      Inr (?oscs', harmonicFrequency v (Suc k))" .
  moreover have "length ?oscs' = length oscs" using len by simp
  moreover have "\<forall>j < Suc k. frequency (?oscs' ! j) = harmonicFrequency v j"
    using freqs k by (auto simp: less_Suc_eq nth_list_update oscPrepareToPlay_def)
  ultimately show ?case by blast
qed

lemma prepareOscillators_result:
  assumes "length oscs = nat (numOscillators v)"
  shows "\<exists>oscs'. prepareOscillators ext v sampleRate blockSize oscs =
       Inr (oscs', harmonicFrequency v (nat (numOscillators v))) \<and>
     length oscs' = length oscs \<and>
     (\<forall>j < nat (numOscillators v). frequency (oscs' ! j) = harmonicFrequency v j)"
  using prepareOscillators_prefix[where k = "nat (numOscillators v)" and oscs = oscs and v = v
      and sampleRate = sampleRate and blockSize = blockSize and ext = ext] assms
  unfolding prepareOscillators_def upto_nat by simp

lemma prepareLFOs_result:
  assumes "length lfos = nat (numLFOs v)" "tableCovers v"
  shows "\<exists>lfos'. prepareLFOs ext v sampleRate blockSize lfos = Inr lfos' \<and> length lfos' = length lfos"
  unfolding prepareLFOs_def
proof (rule foldE_invariant[where P = "\<lambda>lfos'. length lfos' = length lfos"])
  show "length lfos = length lfos" by simp
next
  fix i and acc :: "Oscillator list"
  assume "i \<in> set [0 .. numLFOs v - 1]" and len: "length acc = length lfos"
  then have i: "0 \<le> i" "i < numLFOs v" by auto
  then have "nat i < nat (numLFOs v)" by simp
  then have "nat i < length acc" "nat i < length (frequencyLFO v)"
    using assms len unfolding tableCovers_def by linarith+
  then show "\<exists>acc'. bind (elemAt acc i) (\<lambda>lfo.
         bind (elemAt (frequencyLFO v) i) (\<lambda>freq.
         Inr (acc[nat i := oscPrepareToPlay ext freq sampleRate blockSize lfo]))) = Inr acc' \<and>
       length acc' = length lfos"
    using i(1) len by (simp add: elemAt_inside)
qed

lemma prepareToPlay_result:
  assumes "built v s" "tableCovers v"
  shows "\<exists>oscs lfos. prepareToPlay ext v sampleRate blockSize s =
       Inr (s\<lparr>m_Oscillators := oscs,
               m_LFOs := lfos,
               m_FilterModulator := oscPrepareToPlay ext 0.1 sampleRate blockSize (m_FilterModulator s),
               m_BlockSize := blockSize,
               m_SampleRate := sampleRate,
               m_FilterLeft :=
                 setCoefficients (makeLowPass sampleRate (filterCutoff v)) (m_FilterLeft s),
               m_FilterRight :=
                 setCoefficients (makeLowPass sampleRate (filterCutoff v)) (m_FilterRight s),
               m_Reverb := reverbReset (m_Reverb s)\<rparr>) \<and>
     length oscs = nat (numOscillators v) \<and> length lfos = nat (numLFOs v) \<and>
     (\<forall>j < nat (numOscillators v). frequency (oscs ! j) = harmonicFrequency v j)"
proof -
  from assms(1) have lo: "length (m_Oscillators s) = nat (numOscillators v)"
    and ll: "length (m_LFOs s) = nat (numLFOs v)" by (simp_all add: built_def)
  from prepareOscillators_result[OF lo, where ext = ext and sampleRate = sampleRate
      and blockSize = blockSize] obtain oscs where
    o: "prepareOscillators ext v sampleRate blockSize (m_Oscillators s) =
          Inr (oscs, harmonicFrequency v (nat (numOscillators v)))"
    "length oscs = length (m_Oscillators s)"
    "\<forall>j < nat (numOscillators v). frequency (oscs ! j) = harmonicFrequency v j" by auto
  from prepareLFOs_result[OF ll assms(2), where ext = ext and sampleRate = sampleRate
      and blockSize = blockSize] obtain lfos where
    l: "prepareLFOs ext v sampleRate blockSize (m_LFOs s) = Inr lfos" "length lfos = length (m_LFOs s)"
    by auto
  show ?thesis
    using o l lo ll
    by (intro exI[of _ oscs] exI[of _ lfos]) (simp add: prepareToPlay_def Let_def)
qed

subsection \<open>prepareToPlay: the frequencies of the oscillators\<close>

text \<open>
  Claim C9. On an engine as its constructor leaves it, \<open>prepareToPlay\<close> returns, and
  afterwards oscillator 0 has the frequency \<open>startFrequency\<close>, and for every i from 0
  up to, and without, \<open>numOscillators - 1\<close> the frequency of oscillator i + 1 is the
  frequency of oscillator i plus that frequency over i + 1 times \<open>inharmonicity\<close>.
\<close>

theorem prepareToPlay_frequencies:
  assumes "built v s" "tableCovers v"
  shows "\<exists>s'. prepareToPlay ext v sampleRate blockSize s = Inr s' \<and>
     length (m_Oscillators s') = nat (numOscillators v) \<and>
     (0 < numOscillators v \<longrightarrow> frequency (m_Oscillators s' ! 0) = startFrequency v) \<and>
     (\<forall>i. 0 \<le> i \<and> i + 1 < numOscillators v \<longrightarrow>
        frequency (m_Oscillators s' ! nat (i + 1)) =
          frequency (m_Oscillators s' ! nat i) +
          frequency (m_Oscillators s' ! nat i) / (of_int i + 1) * inharmonicity v)"
proof -
  from prepareToPlay_result[OF assms, where ext = ext and sampleRate = sampleRate
      and blockSize = blockSize] obtain s' oscs where
    run: "prepareToPlay ext v sampleRate blockSize s = Inr s'"
    and oscs: "m_Oscillators s' = oscs" "length oscs = nat (numOscillators v)"
    and freqs: "\<forall>j < nat (numOscillators v). frequency (oscs ! j) = harmonicFrequency v j"
    by fastforce
  have first: "frequency (oscs ! 0) = startFrequency v" if "0 < numOscillators v"
    using freqs that by simp
  have succ: "frequency (oscs ! nat (i + 1)) =
      frequency (oscs ! nat i) + frequency (oscs ! nat i) / (of_int i + 1) * inharmonicity v"
    if "0 \<le> i" "i + 1 < numOscillators v" for i
  proof -
    have n: "nat (i + 1) = Suc (nat i)" using that(1) by simp
    have "Suc (nat i) < nat (numOscillators v)" "nat i < nat (numOscillators v)"
      using that by simp_all
    then have "frequency (oscs ! Suc (nat i)) = harmonicFrequency v (Suc (nat i))"
      "frequency (oscs ! nat i) = harmonicFrequency v (nat i)"
      using freqs by blast+
    then show ?thesis using that(1) by (simp add: n)
  qed
  show ?thesis using run oscs first succ by auto
qed

theorem prepareToPlay_frequencies_witness:
  "built demoVariables demoSynthesis \<and> tableCovers demoVariables \<and>
   (\<exists>s'. prepareToPlay demoExternals demoVariables 48000 512 demoSynthesis = Inr s' \<and>
      frequency (m_Oscillators s' ! 0) = 100 \<and> frequency (m_Oscillators s' ! 1) = 200)"
proof -
  have b: "built demoVariables demoSynthesis" and t: "tableCovers demoVariables"
    by (simp_all add: built_def tableCovers_def demoSynthesis_def construct_def demoVariables_def)
  from prepareToPlay_frequencies[OF b t, where ext = demoExternals and sampleRate = 48000
      and blockSize = 512] obtain s' where
    run: "prepareToPlay demoExternals demoVariables 48000 512 demoSynthesis = Inr s'"
    and first: "0 < numOscillators demoVariables \<longrightarrow>
      frequency (m_Oscillators s' ! 0) = startFrequency demoVariables"
    and succ: "\<forall>i. 0 \<le> i \<and> i + 1 < numOscillators demoVariables \<longrightarrow>
        frequency (m_Oscillators s' ! nat (i + 1)) =
          frequency (m_Oscillators s' ! nat i) +
          frequency (m_Oscillators s' ! nat i) / (of_int i + 1) * inharmonicity demoVariables"
    by blast
  have f0: "frequency (m_Oscillators s' ! 0) = 100"
    using first by (simp add: demoVariables_def)
  have "frequency (m_Oscillators s' ! nat (0 + 1)) =
      frequency (m_Oscillators s' ! nat 0) +
      frequency (m_Oscillators s' ! nat 0) / (of_int 0 + 1) * inharmonicity demoVariables"
    using succ by (intro succ[rule_format]) (simp add: demoVariables_def)
  then have f1: "frequency (m_Oscillators s' ! 1) = 200"
    using f0 by (simp add: demoVariables_def)
  show ?thesis using b t run f0 f1 by blast
qed

subsection \<open>prepareToPlay: the reverb\<close>

text \<open>
  Claim C10. \<open>prepareToPlay\<close> builds a local parameter object that it never hands to
  the reverb, and calls only \<open>reset\<close>: the parameters of the reverb after the call are
  those before it.
\<close>

theorem prepareToPlay_keeps_reverb_parameters:
  assumes "built v s" "tableCovers v"
  shows "\<exists>s'. prepareToPlay ext v sampleRate blockSize s = Inr s' \<and>
     parameters (m_Reverb s') = parameters (m_Reverb s) \<and>
     m_Reverb s' = reverbReset (m_Reverb s)"
proof -
  from prepareToPlay_result[OF assms, where ext = ext and sampleRate = sampleRate
      and blockSize = blockSize] obtain s' where
    "prepareToPlay ext v sampleRate blockSize s = Inr s'" "m_Reverb s' = reverbReset (m_Reverb s)"
    by fastforce
  then show ?thesis by (simp add: reverbReset_def)
qed

theorem prepareToPlay_keeps_reverb_parameters_witness:
  "built demoVariables demoSynthesis \<and> tableCovers demoVariables \<and>
   (\<exists>s'. prepareToPlay demoExternals demoVariables 48000 512 demoSynthesis = Inr s' \<and>
      parameters (m_Reverb s') = defaultReverbParameters)"
proof -
  have b: "built demoVariables demoSynthesis" and t: "tableCovers demoVariables"
    by (simp_all add: built_def tableCovers_def demoSynthesis_def construct_def demoVariables_def)
  have "parameters (m_Reverb demoSynthesis) = defaultReverbParameters"
    by (simp add: demoSynthesis_def construct_def demoMembers_def)
  with prepareToPlay_keeps_reverb_parameters[OF b t, where ext = demoExternals
      and sampleRate = 48000 and blockSize = 512] b t show ?thesis by auto
qed

subsection \<open>The amplitude of a sample\<close>

lemma oscillatorAmplitude_value:
  assumes "getOscillatorGain v g i = Inr gain" "freq \<noteq> 0"
  shows "oscillatorAmplitude v g i freq = Inr (gain * (gain * startFrequency v * (1 / freq)))"
  using assms by (simp add: oscillatorAmplitude_def getSpectralGainDecay_def fdiv_def)

text \<open>
  Claim C2. The claim gives the amplitude of a sample as the density gain times
  \<open>startFrequency / frequency\<close>. Lines 230 and 231 multiply the density gain by the
  value of \<open>getSpectralGainDecay\<close>, which already holds that gain as a factor, so the
  amplitude is the square of the density gain times \<open>startFrequency / frequency\<close>. With
  a density gain of 1/2, a start frequency of 100 and a frequency of 200, the claim's
  amplitude is 1/4 and the amplitude of the code is 1/8.
\<close>

theorem oscillatorAmplitude_squares_gain:
  "getOscillatorGain demoVariables halfGrid 0 = Inr (1 / 2) \<and>
   startFrequency demoVariables / 200 = 1 / 2 \<and>
   oscillatorAmplitude demoVariables halfGrid 0 200 = Inr (1 / 8)"
  by code_simp

subsection \<open>One sample of one oscillator\<close>

lemma imod_inside: "0 \<le> a \<Longrightarrow> 0 < b \<Longrightarrow> imod a b = Inr (a mod b)"
  by (simp add: imod_def signed_modulo_int_def sgn_if)

lemma processSample_bound: "\<bar>fst (processSample osc)\<bar> \<le> 1"
  by (simp add: processSample_def Let_def)

lemma modulatedFrequency_nonzero:
  assumes "c \<noteq> 0" "0 \<le> oi" "\<bar>m\<bar> \<le> 1"
  shows "modulatedFrequency c oi m \<noteq> 0"
proof -
  define d :: real where "d = of_int ((oi + 1) * 5)"
  have d: "5 \<le> d" using assms(2) by (simp add: d_def)
  have "\<bar>m / d\<bar> \<le> 1 / 5"
  proof -
    have "\<bar>m / d\<bar> = \<bar>m\<bar> / d" using d by simp
    also have "\<dots> \<le> 1 / d" using assms(3) d by (simp add: divide_right_mono)
    also have "\<dots> \<le> 1 / 5" using d by (simp add: frac_le)
    finally show ?thesis .
  qed
  then have "0 < 1 + m / d" by linarith
  moreover have "modulatedFrequency c oi m = c * (1 + m / d)"
    by (simp add: modulatedFrequency_def d_def algebra_simps)
  ultimately show ?thesis using assms(1) by simp
qed

lemma setCell_fits:
  assumes "gridFits v g"
  shows "gridFits v (setCell g row column c)"
proof -
  have "length ((g[nat row := (g ! nat row)[nat column := c]]) ! n) = length (g ! n)"
    if "n < length g" for n
    using that by (cases "n = nat row") simp_all
  then show ?thesis
    using assms by (simp add: gridFits_def setCell_def list_all_length)
qed

lemma updateFadeValues_result:
  assumes cfg: "validConfig v" and fit: "gridFits v g" and idx: "0 \<le> i" "i < numOscillators v"
  shows "\<exists>g'. updateFadeValues ext v g i = Inr g' \<and> gridFits v g'"
proof -
  let ?w = "columnsPerOscillator v"
  have no: "numOscillators v \<noteq> 0" using cfg by (simp add: validConfig_def)
  have st: "startColumn v i = Inr (of_int (i * ?w))" using no by (rule startColumn_value)
  have en: "endColumn v (of_int (i * ?w)) = Inr (of_int (i * ?w + ?w))"
    using no by (rule endColumn_value)
  have cols: "columnsFrom (toInt (of_int (i * ?w))) (of_int (i * ?w + ?w)) =
      [i * ?w .. (i + 1) * ?w - 1]"
    by (simp only: columnsFrom_int toInt_of_int) (simp add: algebra_simps)
  have "\<exists>g'. foldE (\<lambda>column. foldE (\<lambda>row g'.
             bind (getCell g' row column) (\<lambda>c. Inr (setCell g' row column (updateFade ext c))))
           (rowsOf v)) [i * ?w .. (i + 1) * ?w - 1] g = Inr g' \<and> gridFits v g'"
  proof (rule foldE_invariant[where P = "gridFits v", OF fit])
    fix column g1
    assume "column \<in> set [i * ?w .. (i + 1) * ?w - 1]" and fit1: "gridFits v g1"
    then have c: "0 \<le> column" "column < numColumns v"
      using block_within[OF valid_positive[OF cfg] idx] by simp_all
    show "\<exists>g'. foldE (\<lambda>row g'.
             bind (getCell g' row column) (\<lambda>c. Inr (setCell g' row column (updateFade ext c))))
           (rowsOf v) g1 = Inr g' \<and> gridFits v g'"
    proof (rule foldE_invariant[where P = "gridFits v", OF fit1])
      fix row g2
      assume "row \<in> set (rowsOf v)" and fit2: "gridFits v g2"
      then have "0 \<le> row" "row < numRows v" by (simp_all add: rowsOf_def)
      then show "\<exists>g'. bind (getCell g2 row column)
              (\<lambda>c. Inr (setCell g2 row column (updateFade ext c))) = Inr g' \<and> gridFits v g'"
        using c fit2 by (simp add: getCell_inside setCell_fits)
    qed
  qed
  then show ?thesis
    unfolding updateFadeValues_def st en cols bind_Inr .
qed

lemma addToBlock_result:
  assumes "map length block = replicate n k" "0 \<le> i" "nat i < k"
  shows "\<exists>block'. addToBlock block i x = Inr block' \<and> map length block' = map length block"
proof -
  have "length channel = k" if "channel \<in> set block" for channel
  proof -
    from that have "length channel \<in> set (map length block)" by simp
    then show ?thesis unfolding assms(1) by simp
  qed
  then have "list_all (\<lambda>channelData. 0 \<le> i \<and> i < int (length channelData)) block"
    using assms(2,3) by (auto simp: list_all_iff)
  then show ?thesis by (simp add: addToBlock_def comp_def)
qed

lemma frequency_processSample [simp]: "frequency (snd (processSample osc)) = frequency osc"
  by (simp add: processSample_def Let_def)

lemma map_frequency_restore:
  assumes "j < length oscs" "frequency osc' = frequency (oscs ! j)"
  shows "map frequency (oscs[j := osc']) = map frequency oscs"
  using assms by (simp add: map_update list_update_same_conv)

lemma ready_nonzero:
  assumes "engineReady v s" "0 \<le> oi" "oi < numOscillators v"
  shows "nat oi < length (m_Oscillators s)" "frequency (m_Oscillators s ! nat oi) \<noteq> 0"
proof -
  show l: "nat oi < length (m_Oscillators s)"
    using assms by (simp add: engineReady_def built_def)
  then show "frequency (m_Oscillators s ! nat oi) \<noteq> 0"
    using assms(1) by (simp add: engineReady_def list_all_length)
qed

lemma processOscillatorSample_result:
  fixes ext v s oi
  defines "lfo \<equiv> m_LFOs s ! nat (oi mod numLFOs v)"
  defines "osc \<equiv> m_Oscillators s ! nat oi"
  defines "modulated \<equiv> modulatedFrequency (frequency osc) oi (fst (processSample lfo))"
  defines "osc' \<equiv> setFrequency (frequency osc)
     (snd (processSample (updatePhaseDelta ext (setFrequency modulated osc))))"
  assumes play: "playable v" and ready: "engineReady v s"
    and oi: "0 \<le> oi" "oi < numOscillators v"
    and i: "0 \<le> i" "nat i < k"
    and shape: "map length block = replicate n k"
  shows "\<exists>s' block' pan.
     processOscillatorSample ext v oi i (s, block, pans) = Inr (s', block', pans @ [pan]) \<and>
     engineReady v s' \<and> map length block' = map length block \<and> sameFrame s s' \<and>
     m_Oscillators s' ! nat oi = osc'"
proof -
  have cfg: "validConfig v" and nl: "0 < numLFOs v" using play by (simp_all add: playable_def)
  have fit: "gridFits v (m_Grid s)" and lo: "length (m_Oscillators s) = nat (numOscillators v)"
    and ll: "length (m_LFOs s) = nat (numLFOs v)"
    using ready by (simp_all add: engineReady_def built_def)
  let ?l = "oi mod numLFOs v"
  have l: "0 \<le> ?l" "nat ?l < length (m_LFOs s)" using nl ll by simp_all
  have e1: "imod oi (numLFOs v) = Inr ?l" using oi(1) nl by (rule imod_inside)
  have e2: "elemAt (m_LFOs s) ?l = Inr lfo" using l by (simp add: elemAt_inside lfo_def)
  have o: "nat oi < length (m_Oscillators s)" "frequency osc \<noteq> 0"
    using ready_nonzero[OF ready oi] by (simp_all add: osc_def)
  have e3: "elemAt (m_Oscillators s) oi = Inr osc" using oi(1) o(1) by (simp add: elemAt_inside osc_def)
  have nz: "modulated \<noteq> 0"
    unfolding modulated_def using o(2) oi(1) processSample_bound
    by (rule modulatedFrequency_nonzero)
  obtain amp where e4: "oscillatorAmplitude v (m_Grid s) oi modulated = Inr amp"
    using oscillatorAmplitude_value[OF gain_value[OF valid_positive[OF cfg] fit oi] nz] by blast
  obtain pan where e5: "getOscillatorPan v (m_Grid s) oi = Inr pan"
    using pan_value[OF cfg fit oi] by blast
  obtain g' where e6: "updateFadeValues ext v (m_Grid s) oi = Inr g'" and fit': "gridFits v g'"
    using updateFadeValues_result[OF cfg fit oi] by blast
  let ?sample = "fst (processSample (updatePhaseDelta ext (setFrequency modulated osc)))"
  obtain block' where e7: "addToBlock block i (?sample * amp) = Inr block'"
    and shape': "map length block' = map length block"
    using addToBlock_result[OF shape i] by blast
  let ?s' = "s\<lparr>m_LFOs := (m_LFOs s)[nat ?l := snd (processSample lfo)], m_Grid := g',
      m_Oscillators := (m_Oscillators s)[nat oi := osc']\<rparr>"
  have run: "processOscillatorSample ext v oi i (s, block, pans) = Inr (?s', block', pans @ [pan])"
    using e1 e2 e3 e4 e5 e6 e7
    by (simp add: processOscillatorSample_def Let_def split_beta getFrequency_def setFrequency_def
        updatePhaseDelta_def osc'_def modulated_def)
  have fr: "frequency osc' = frequency (m_Oscillators s ! nat oi)"
    by (simp add: osc'_def setFrequency_def osc_def)
  have mf: "map frequency (m_Oscillators ?s') = map frequency (m_Oscillators s)"
    using map_frequency_restore[OF o(1) fr] by simp
  have "list_all (\<lambda>osc. frequency osc \<noteq> 0) (m_Oscillators s)"
    using ready by (simp add: engineReady_def)
  then have "list_all (\<lambda>x. x \<noteq> 0) (map frequency (m_Oscillators s))"
    by (simp add: list_all_iff)
  then have "list_all (\<lambda>x. x \<noteq> 0) (map frequency (m_Oscillators ?s'))"
    by (simp only: mf)
  then have "list_all (\<lambda>osc. frequency osc \<noteq> 0) (m_Oscillators ?s')"
    by (simp add: list_all_iff)
  then have ready': "engineReady v ?s'"
    using lo ll fit' by (simp add: engineReady_def built_def)
  have frame: "sameFrame s ?s'" using mf by (simp add: sameFrame_def)
  have "m_Oscillators ?s' ! nat oi = osc'" using o(1) by simp
  with run ready' shape' frame show ?thesis by blast
qed

subsection \<open>The loops of processBlock\<close>

lemma sameFrame_refl: "sameFrame s s"
  by (simp add: sameFrame_def)

lemma sameFrame_trans: "sameFrame s s1 \<Longrightarrow> sameFrame s1 s2 \<Longrightarrow> sameFrame s s2"
  by (simp add: sameFrame_def)

lemma samples_result:
  assumes play: "playable v" and ready: "engineReady v s"
    and oi: "0 \<le> oi" "oi < numOscillators v"
    and shape: "map length block = replicate n (nat blockSize)"
  shows "\<exists>s' block' pans'.
     foldE (processOscillatorSample ext v oi) [0 .. blockSize - 1] (s, block, pans) =
       Inr (s', block', pans') \<and>
     engineReady v s' \<and> map length block' = replicate n (nat blockSize) \<and> sameFrame s s'"
proof -
  let ?P = "\<lambda>acc. engineReady v (fst acc) \<and>
      map length (fst (snd acc)) = replicate n (nat blockSize) \<and> sameFrame s (fst acc)"
  have "\<exists>acc'. foldE (processOscillatorSample ext v oi) [0 .. blockSize - 1] (s, block, pans) =
      Inr acc' \<and> ?P acc'"
  proof (rule foldE_invariant[where P = ?P])
    show "?P (s, block, pans)" using ready shape by (simp add: sameFrame_refl)
  next
    fix i and acc :: "Synthesis \<times> real list list \<times> real list"
    assume "i \<in> set [0 .. blockSize - 1]" and inv: "?P acc"
    then have i: "0 \<le> i" "nat i < nat blockSize" by auto
    obtain s1 block1 pans1 where acc: "acc = (s1, block1, pans1)" by (cases acc) auto
    from inv have r1: "engineReady v s1"
      and sh1: "map length block1 = replicate n (nat blockSize)" and f1: "sameFrame s s1"
      by (simp_all add: acc)
    from processOscillatorSample_result[OF play r1 oi i sh1, where ext = ext and pans = pans1]
    obtain s2 block2 pan where
      "processOscillatorSample ext v oi i (s1, block1, pans1) = Inr (s2, block2, pans1 @ [pan])"
      "engineReady v s2" "map length block2 = map length block1" "sameFrame s1 s2"
      by blast
    then show "\<exists>acc'. processOscillatorSample ext v oi i acc = Inr acc' \<and> ?P acc'"
      using sh1 f1 by (auto simp: acc intro: sameFrame_trans)
  qed
  then show ?thesis by auto
qed

lemma processOscillator_result:
  assumes play: "playable v" and ready: "engineReady v s"
    and oi: "0 \<le> oi" "oi < numOscillators v"
    and shape: "map length block = replicate n (nat blockSize)"
    and panner: "shapePreserving ext"
  shows "\<exists>s' block'.
     processOscillator ext v blockSize oi (s, block) = Inr (s', block') \<and>
     engineReady v s' \<and> map length block' = replicate n (nat blockSize) \<and> sameFrame s s'"
proof -
  from samples_result[OF play ready oi shape, of ext "[]"] obtain s' block' pans' where
    run: "foldE (processOscillatorSample ext v oi) [0 .. blockSize - 1] (s, block, []) =
       Inr (s', block', pans')"
    and r: "engineReady v s'" and sh: "map length block' = replicate n (nat blockSize)"
    and f: "sameFrame s s'" by blast
  have "map length (pannerProcessBlock ext block' pans') = replicate n (nat blockSize)"
    using panner sh by (simp add: shapePreserving_def)
  then show ?thesis using run r f by (simp add: processOscillator_def)
qed

lemma oscillators_result:
  assumes play: "playable v" and ready: "engineReady v s"
    and shape: "map length block = replicate n (nat blockSize)"
    and panner: "shapePreserving ext"
  shows "\<exists>s' block'.
     foldE (processOscillator ext v blockSize) [0 .. numOscillators v - 1] (s, block) =
       Inr (s', block') \<and>
     engineReady v s' \<and> map length block' = replicate n (nat blockSize) \<and> sameFrame s s'"
proof -
  let ?P = "\<lambda>acc. engineReady v (fst acc) \<and>
      map length (snd acc) = replicate n (nat blockSize) \<and> sameFrame s (fst acc)"
  have "\<exists>acc'. foldE (processOscillator ext v blockSize) [0 .. numOscillators v - 1] (s, block) =
      Inr acc' \<and> ?P acc'"
  proof (rule foldE_invariant[where P = ?P])
    show "?P (s, block)" using ready shape by (simp add: sameFrame_refl)
  next
    fix oi and acc :: "Synthesis \<times> real list list"
    assume "oi \<in> set [0 .. numOscillators v - 1]" and inv: "?P acc"
    then have oi: "0 \<le> oi" "oi < numOscillators v" by auto
    obtain s1 block1 where acc: "acc = (s1, block1)" by (cases acc) auto
    from inv have r1: "engineReady v s1"
      and sh1: "map length block1 = replicate n (nat blockSize)" and f1: "sameFrame s s1"
      by (simp_all add: acc)
    from processOscillator_result[OF play r1 oi sh1 panner]
    obtain s2 block2 where
      "processOscillator ext v blockSize oi (s1, block1) = Inr (s2, block2)"
      "engineReady v s2" "map length block2 = replicate n (nat blockSize)" "sameFrame s1 s2"
      by blast
    then show "\<exists>acc'. processOscillator ext v blockSize oi acc = Inr acc' \<and> ?P acc'"
      using f1 by (auto simp: acc intro: sameFrame_trans)
  qed
  then show ?thesis by auto
qed

lemma processBlock_result:
  assumes play: "playable v" and ready: "engineReady v s"
    and panner: "shapePreserving ext" and buffer: "stereoBuffer buffer"
  shows "\<exists>s' out. processBlock ext v s buffer = Inr (s', out) \<and>
     engineReady v s' \<and>
     map frequency (m_Oscillators s') = map frequency (m_Oscillators s) \<and>
     m_SampleRate s' = m_SampleRate s \<and>
     coefficients (m_FilterLeft s') =
       makeLowPass (m_SampleRate s) (sweptCutoff v (fst (processSample (m_FilterModulator s)))) \<and>
     coefficients (m_FilterRight s') =
       makeLowPass (m_SampleRate s) (sweptCutoff v (fst (processSample (m_FilterModulator s)))) \<and>
     m_Reverb s' = reverbReset (m_Reverb s)"
proof -
  let ?n = "length buffer"
  let ?k = "nat (getNumSamples buffer)"
  let ?cleared = "replicate ?n (replicate ?k (0::real))"
  have n: "2 \<le> ?n" using buffer by (simp add: stereoBuffer_def)
  have shape: "map length ?cleared = replicate ?n ?k" by simp
  from oscillators_result[OF play ready shape panner] obtain s1 block where
    run: "foldE (processOscillator ext v (getNumSamples buffer)) [0 .. numOscillators v - 1]
       (s, ?cleared) = Inr (s1, block)"
    and r1: "engineReady v s1" and sh: "map length block = replicate ?n ?k"
    and f: "sameFrame s s1" by blast
  have "length (map length block) = ?n" unfolding sh by simp
  then have lb: "length block = ?n" by simp
  let ?mixed = "map2 (map2 (+)) ?cleared block"
  have lm: "length ?mixed = ?n" using lb by simp
  have e0: "elemAt ?mixed 0 = Inr (?mixed ! 0)" and e1: "elemAt ?mixed 1 = Inr (?mixed ! 1)"
    using n lm by (auto simp: elemAt_def)
  have ready1: "\<And>a b c d. engineReady v (s1\<lparr>m_FilterModulator := a, m_FilterLeft := b,
      m_FilterRight := c, m_Reverb := d\<rparr>)"
    using r1 by (simp add: engineReady_def built_def)
  show ?thesis
    using run e0 e1 f ready1
    by (simp add: processBlock_def Let_def split_beta sameFrame_def setCoefficients_def
        reverbReset_def)
qed

subsection \<open>The example engine\<close>

lemma solo_ready:
  "playable soloVariables" "engineReady soloVariables soloSynthesis"
  "shapePreserving demoExternals" "stereoBuffer soloBuffer"
  by (simp_all add: playable_def validConfig_def engineReady_def built_def gridFits_def
      shapePreserving_def stereoBuffer_def getNumSamples_def soloVariables_def
      soloSynthesis_def soloBuffer_def demoExternals_def tone_def)

lemma lfo_positive: "0 < fst (processSample (tone freq))" if "0 < freq" "freq < 24000"
proof -
  have "0 < 2 * pi * (freq / 48000)" using that by simp
  moreover have "2 * pi * (freq / 48000) < pi" using that by simp
  ultimately have "0 < sin (2 * pi * (freq / 48000))" by (rule sin_gt_zero)
  then show ?thesis using that by (simp add: processSample_def tone_def Let_def)
qed

subsection \<open>processBlock: the frequency modulation\<close>

lemma getFrequency_phaseDelta: "getFrequency (osc\<lparr>phaseDelta := delta\<rparr>) = getFrequency osc"
  by (simp add: getFrequency_def)

lemma updatePhaseDelta_overwrites:
  "updatePhaseDelta ext (setFrequency m (osc\<lparr>phaseDelta := delta\<rparr>)) =
     updatePhaseDelta ext (setFrequency m osc)"
  by (simp add: updatePhaseDelta_def setFrequency_def)

lemma stale_phaseDelta_unread:
  assumes "0 \<le> oi" "nat oi < length (m_Oscillators s)"
  shows "processOscillatorSample ext v oi i
       (s\<lparr>m_Oscillators :=
            (m_Oscillators s)[nat oi := (m_Oscillators s ! nat oi)\<lparr>phaseDelta := delta\<rparr>]\<rparr>,
        block, pans) =
     processOscillatorSample ext v oi i (s, block, pans)"
proof -
  let ?osc = "m_Oscillators s ! nat oi"
  have there: "elemAt (m_Oscillators s) oi = Inr ?osc"
    using assms by (simp add: elemAt_inside)
  have here: "elemAt ((m_Oscillators s)[nat oi := ?osc\<lparr>phaseDelta := delta\<rparr>]) oi =
      Inr (?osc\<lparr>phaseDelta := delta\<rparr>)"
    using assms by (simp add: elemAt_inside)
  show ?thesis
    by (simp add: processOscillatorSample_def there here getFrequency_phaseDelta
        updatePhaseDelta_overwrites Let_def split_beta)
qed

text \<open>
  Claim C7. For each oscillator and each sample, the modulated frequency is set for the
  one draw and the unmodulated frequency is put back afterwards: after the sample, and
  after \<open>processBlock\<close>, every oscillator has the frequency it had before. The phase
  delta is recomputed from the modulated frequency before the draw, so the sample does
  not depend on the phase delta that the oscillator holds on entry: what an earlier
  sample left there is never read.
\<close>

theorem frequency_restored_after_each_sample:
  assumes "playable v" "engineReady v s" "0 \<le> oi" "oi < numOscillators v"
    and "0 \<le> i" "nat i < k" "map length block = replicate n k"
    and "shapePreserving ext" "stereoBuffer buffer"
  shows "(\<exists>s' block' pans'.
       processOscillatorSample ext v oi i (s, block, pans) = Inr (s', block', pans') \<and>
       map frequency (m_Oscillators s') = map frequency (m_Oscillators s)) \<and>
     (\<forall>delta. processOscillatorSample ext v oi i
        (s\<lparr>m_Oscillators :=
             (m_Oscillators s)[nat oi := (m_Oscillators s ! nat oi)\<lparr>phaseDelta := delta\<rparr>]\<rparr>,
         block, pans) =
       processOscillatorSample ext v oi i (s, block, pans)) \<and>
     (\<exists>s' out. processBlock ext v s buffer = Inr (s', out) \<and>
       map frequency (m_Oscillators s') = map frequency (m_Oscillators s))"
proof (intro conjI allI)
  from processOscillatorSample_result[OF assms(1-7), where ext = ext and pans = pans]
  show "\<exists>s' block' pans'.
       processOscillatorSample ext v oi i (s, block, pans) = Inr (s', block', pans') \<and>
       map frequency (m_Oscillators s') = map frequency (m_Oscillators s)"
    by (auto simp: sameFrame_def)
  show "processOscillatorSample ext v oi i
        (s\<lparr>m_Oscillators :=
             (m_Oscillators s)[nat oi := (m_Oscillators s ! nat oi)\<lparr>phaseDelta := delta\<rparr>]\<rparr>,
         block, pans) =
       processOscillatorSample ext v oi i (s, block, pans)" for delta
    using assms(3) ready_nonzero(1)[OF assms(2-4)] by (rule stale_phaseDelta_unread)
  from processBlock_result[OF assms(1,2,8,9)]
  show "\<exists>s' out. processBlock ext v s buffer = Inr (s', out) \<and>
       map frequency (m_Oscillators s') = map frequency (m_Oscillators s)"
    by blast
qed

theorem frequency_restored_after_each_sample_witness:
  "playable soloVariables \<and> engineReady soloVariables soloSynthesis \<and>
   shapePreserving demoExternals \<and> stereoBuffer soloBuffer \<and>
   (\<exists>s' block' pans'.
      processOscillatorSample demoExternals soloVariables 0 0 (soloSynthesis, [[0], [0]], []) =
        Inr (s', block', pans') \<and>
      map frequency (m_Oscillators s') = [100]) \<and>
   (\<exists>s' out. processBlock demoExternals soloVariables soloSynthesis soloBuffer = Inr (s', out) \<and>
      map frequency (m_Oscillators s') = [100])"
proof -
  have p: "playable soloVariables" and r: "engineReady soloVariables soloSynthesis"
    and e: "shapePreserving demoExternals" and b: "stereoBuffer soloBuffer"
    by (simp_all add: playable_def validConfig_def engineReady_def built_def gridFits_def
      shapePreserving_def stereoBuffer_def getNumSamples_def soloVariables_def
      soloSynthesis_def soloBuffer_def demoExternals_def tone_def)
  have oi: "(0::int) \<le> 0" "0 < numOscillators soloVariables" by (simp_all add: soloVariables_def)
  have i: "(0::int) \<le> 0" "nat 0 < (1::nat)" by simp_all
  have shape: "map length [[0], [0::real]] = replicate 2 1" by (simp add: numeral_2_eq_2)
  have f: "map frequency (m_Oscillators soloSynthesis) = [100]"
    by (simp add: soloSynthesis_def tone_def)
  from frequency_restored_after_each_sample[OF p r oi i shape e b, where pans = "[]"] p r e b f
  show ?thesis by auto
qed

subsection \<open>processBlock: the reverb\<close>

text \<open>
  Claim C8. \<open>processBlock\<close> ends with the reset of the reverb: whatever the stereo pass
  left in the delay lines, the reverb after the call is the reverb before the call,
  reset. Its delay lines are clear and its parameters are unchanged, so every call
  starts from the state in which the call before, or \<open>prepareToPlay\<close>, left it.
\<close>

theorem processBlock_resets_reverb:
  assumes "playable v" "engineReady v s" "shapePreserving ext" "stereoBuffer buffer"
  shows "\<exists>s' out. processBlock ext v s buffer = Inr (s', out) \<and>
     m_Reverb s' = reverbReset (m_Reverb s) \<and>
     delayLines (m_Reverb s') = (\<lambda>_. 0) \<and>
     parameters (m_Reverb s') = parameters (m_Reverb s) \<and>
     reverbReset (m_Reverb s') = m_Reverb s'"
proof -
  from processBlock_result[OF assms] obtain s' out where
    "processBlock ext v s buffer = Inr (s', out)" "m_Reverb s' = reverbReset (m_Reverb s)"
    by blast
  then show ?thesis by (simp add: reverbReset_def)
qed

theorem processBlock_resets_reverb_witness:
  "playable soloVariables \<and> engineReady soloVariables soloSynthesis \<and>
   shapePreserving demoExternals \<and> stereoBuffer soloBuffer \<and>
   (\<exists>s' out. processBlock demoExternals soloVariables soloSynthesis soloBuffer = Inr (s', out) \<and>
      m_Reverb s' = m_Reverb soloSynthesis)"
proof -
  have p: "playable soloVariables" and r: "engineReady soloVariables soloSynthesis"
    and e: "shapePreserving demoExternals" and b: "stereoBuffer soloBuffer"
    by (simp_all add: playable_def validConfig_def engineReady_def built_def gridFits_def
      shapePreserving_def stereoBuffer_def getNumSamples_def soloVariables_def
      soloSynthesis_def soloBuffer_def demoExternals_def tone_def)
  have "reverbReset (m_Reverb soloSynthesis) = m_Reverb soloSynthesis"
    by (simp add: reverbReset_def soloSynthesis_def)
  with processBlock_resets_reverb[OF p r e b] p r e b show ?thesis by auto
qed

subsection \<open>processBlock: the cutoff of the filters\<close>

lemma sweptCutoff_bounds:
  assumes "0 < filterCutoff v" "\<bar>m\<bar> \<le> 1"
  shows "filterCutoff v / 10 \<le> sweptCutoff v m" "sweptCutoff v m \<le> filterCutoff v * 200.1"
proof -
  have "- 1 \<le> m" "m \<le> 1" using assms(2) by linarith+
  then have "0.001 \<le> m + 1.001" "m + 1.001 \<le> 2.001" by simp_all
  then have "filterCutoff v * 0.001 \<le> filterCutoff v * (m + 1.001)"
    "filterCutoff v * (m + 1.001) \<le> filterCutoff v * 2.001"
    using assms(1) by (simp_all only: mult_le_cancel_left_pos)
  then show "filterCutoff v / 10 \<le> sweptCutoff v m" "sweptCutoff v m \<le> filterCutoff v * 200.1"
    by (simp_all add: sweptCutoff_def)
qed

text \<open>
  Claim C3, as amended. The cutoff given to both filters is
  \<open>filterCutoff * (modulator + 1.001) * 100\<close>, with no clamp. The modulator is a sine,
  so for a positive \<open>filterCutoff\<close> the cutoff lies between a tenth of \<open>filterCutoff\<close> and
  200.1 times \<open>filterCutoff\<close>: it is above zero, and nothing keeps it below half the
  sample rate.
\<close>

theorem processBlock_cutoff_not_clamped:
  assumes "playable v" "engineReady v s" "shapePreserving ext" "stereoBuffer buffer"
  shows "\<exists>s' out. processBlock ext v s buffer = Inr (s', out) \<and>
     coefficients (m_FilterLeft s') =
       makeLowPass (m_SampleRate s) (sweptCutoff v (fst (processSample (m_FilterModulator s)))) \<and>
     coefficients (m_FilterRight s') = coefficients (m_FilterLeft s') \<and>
     (0 < filterCutoff v \<longrightarrow>
        filterCutoff v / 10 \<le> sweptCutoff v (fst (processSample (m_FilterModulator s))) \<and>
        sweptCutoff v (fst (processSample (m_FilterModulator s))) \<le> filterCutoff v * 200.1)"
proof -
  from processBlock_result[OF assms] obtain s' out where
    "processBlock ext v s buffer = Inr (s', out)"
    "coefficients (m_FilterLeft s') =
       makeLowPass (m_SampleRate s) (sweptCutoff v (fst (processSample (m_FilterModulator s))))"
    "coefficients (m_FilterRight s') =
       makeLowPass (m_SampleRate s) (sweptCutoff v (fst (processSample (m_FilterModulator s))))"
    by blast
  then show ?thesis
    using sweptCutoff_bounds[OF _ processSample_bound, of v "m_FilterModulator s"] by auto
qed

theorem processBlock_cutoff_not_clamped_witness:
  "playable soloVariables \<and> engineReady soloVariables soloSynthesis \<and>
   shapePreserving demoExternals \<and> stereoBuffer soloBuffer \<and>
   0 < filterCutoff soloVariables \<and>
   (\<exists>s' out. processBlock demoExternals soloVariables soloSynthesis soloBuffer = Inr (s', out) \<and>
      coefficients (m_FilterRight s') = coefficients (m_FilterLeft s') \<and>
      100 \<le> sweptCutoff soloVariables (fst (processSample (m_FilterModulator soloSynthesis))))"
proof -
  have p: "playable soloVariables" and r: "engineReady soloVariables soloSynthesis"
    and e: "shapePreserving demoExternals" and b: "stereoBuffer soloBuffer"
    by (simp_all add: playable_def validConfig_def engineReady_def built_def gridFits_def
      shapePreserving_def stereoBuffer_def getNumSamples_def soloVariables_def
      soloSynthesis_def soloBuffer_def demoExternals_def tone_def)
  have c: "0 < filterCutoff soloVariables" "filterCutoff soloVariables / 10 = 100"
    by (simp_all add: soloVariables_def)
  from processBlock_cutoff_not_clamped[OF p r e b] p r e b c show ?thesis by auto
qed

text \<open>
  Claim C3 as stated says that the cutoff given to the filters lies in a stable range.
  With \<open>filterCutoff = 1000\<close> at a sample rate of 48000, the cutoff that \<open>processBlock\<close>
  gives to the left filter is above 100000, far above half the sample rate.
\<close>

theorem cutoff_above_nyquist_counterexample:
  "\<not> isl (processBlock demoExternals soloVariables soloSynthesis soloBuffer) \<and>
   m_SampleRate soloSynthesis = 48000 \<and>
   fst (coefficients (m_FilterLeft soloAfter)) = 48000 \<and>
   \<not> stableCutoff 48000 (snd (coefficients (m_FilterLeft soloAfter)))"
proof -
  from processBlock_result[OF solo_ready] obtain s' out where
    run: "processBlock demoExternals soloVariables soloSynthesis soloBuffer = Inr (s', out)"
    and co: "coefficients (m_FilterLeft s') = makeLowPass (m_SampleRate soloSynthesis)
       (sweptCutoff soloVariables (fst (processSample (m_FilterModulator soloSynthesis))))"
    by blast
  have after: "soloAfter = s'" by (simp add: soloAfter_def run)
  have "0 < fst (processSample (tone (1 / 10)))" by (rule lfo_positive) simp_all
  then have "0 < fst (processSample (m_FilterModulator soloSynthesis))"
    by (simp add: soloSynthesis_def)
  then have "1000 * 1.001 * 100 \<le>
      sweptCutoff soloVariables (fst (processSample (m_FilterModulator soloSynthesis)))"
    by (simp add: sweptCutoff_def soloVariables_def)
  then have "\<not> stableCutoff 48000
      (sweptCutoff soloVariables (fst (processSample (m_FilterModulator soloSynthesis))))"
    by (simp add: stableCutoff_def)
  then show ?thesis
    using run co by (simp add: after makeLowPass_def soloSynthesis_def)
qed

subsection \<open>prepareToPlay: no validation\<close>

text \<open>
  Claim C4, as amended. \<open>prepareToPlay\<close> validates nothing: on an engine as its
  constructor leaves it, with an entry of the LFO table for each LFO, it returns for
  every configuration, sample rate and block size, whether or not the number of
  oscillators divides the number of columns. It leaves the grid as it is and does not
  read \<open>numRows\<close> or \<open>numColumns\<close>: whatever they are, the result is the same.
\<close>

theorem prepareToPlay_validates_nothing:
  assumes "built v s" "tableCovers v"
  shows "\<exists>s'. prepareToPlay ext v sampleRate blockSize s = Inr s' \<and>
     m_Grid s' = m_Grid s \<and> built v s' \<and>
     (\<forall>rows columns.
        prepareToPlay ext (v\<lparr>numRows := rows, numColumns := columns\<rparr>) sampleRate blockSize s =
          Inr s')"
proof -
  from prepareToPlay_result[OF assms, where ext = ext and sampleRate = sampleRate
      and blockSize = blockSize]
  obtain s' where run: "prepareToPlay ext v sampleRate blockSize s = Inr s'"
    and grid: "m_Grid s' = m_Grid s" and b: "built v s'"
    by (auto simp: built_def)
  have "prepareToPlay ext (v\<lparr>numRows := rows, numColumns := columns\<rparr>) sampleRate blockSize s =
      prepareToPlay ext v sampleRate blockSize s" for rows columns
    by (simp add: prepareToPlay_def prepareOscillators_def prepareLFOs_def)
  with run grid b show ?thesis by auto
qed

theorem prepareToPlay_validates_nothing_witness:
  "built oddVariables (construct oddVariables oddGrid demoOscillator demoMembers) \<and>
   tableCovers oddVariables \<and>
   \<not> numOscillators oddVariables dvd numColumns oddVariables \<and>
   (\<exists>s'. prepareToPlay demoExternals oddVariables 48000 512
           (construct oddVariables oddGrid demoOscillator demoMembers) = Inr s' \<and>
         m_Grid s' = oddGrid)"
proof -
  have b: "built oddVariables (construct oddVariables oddGrid demoOscillator demoMembers)"
    and t: "tableCovers oddVariables"
    by (simp_all add: built_def tableCovers_def construct_def oddVariables_def demoVariables_def)
  have d: "\<not> numOscillators oddVariables dvd numColumns oddVariables"
    by (simp add: oddVariables_def demoVariables_def)
  have g: "m_Grid (construct oddVariables oddGrid demoOscillator demoMembers) = oddGrid"
    by (simp add: construct_def)
  from prepareToPlay_validates_nothing[OF b t, where ext = demoExternals and sampleRate = 48000
      and blockSize = 512] b t d g
  show ?thesis by auto
qed

text \<open>
  Claim C4 as stated says that a configuration in which the number of oscillators does
  not divide the number of columns is rejected or clamped by \<open>prepareToPlay\<close>. With two
  rows, one column and two oscillators, \<open>prepareToPlay\<close> returns and leaves the grid as
  it is, and \<open>getOscillatorPan\<close> of oscillator 0 then divides zero by zero.
\<close>

theorem prepareToPlay_accepts_empty_blocks_counterexample:
  "\<not> numOscillators thinVariables dvd numColumns thinVariables \<and>
   gridFits thinVariables thinGrid \<and>
   \<not> isl (prepareToPlay demoExternals thinVariables 48000 512
          (construct thinVariables thinGrid demoOscillator demoMembers)) \<and>
   m_Grid (projr (prepareToPlay demoExternals thinVariables 48000 512
          (construct thinVariables thinGrid demoOscillator demoMembers))) = thinGrid \<and>
   getOscillatorPan thinVariables thinGrid 0 = Inl NotFinite"
  by code_simp

end
